theory Spec2Isabelle
  imports Complex_Main "HOL-Library.Char_ord" "HOL-Library.List_Lexorder" "HOL-Library.Multiset"
begin

section \<open>Strings\<close>

text \<open>
  Go strings are byte sequences; they are modelled as \<^typ>\<open>string\<close>, ordered bytewise and
  lexicographically (the order \<open>sort.Strings\<close> and \<open>url.Values.Encode\<close> use).
\<close>

text \<open>\<open>strings.Join(elems, sep)\<close>.\<close>

fun Join :: "string list \<Rightarrow> string \<Rightarrow> string" where
  "Join [] sep = []"
| "Join [x] sep = x"
| "Join (x # y # ys) sep = x @ sep @ Join (y # ys) sep"

section \<open>The error taxonomy\<close>

text \<open>\<open>type ResponseError struct { Status int; Message string; Errors []string }\<close>\<close>

record ResponseError =
  Status :: int
  Message :: string
  Errors :: "string list"

text \<open>
  \<open>func (e ResponseError) Error() string\<close>: the message when there is one, otherwise the
  sub-messages sorted (\<open>sort.Strings\<close>; equal strings are indistinguishable, so the sorted
  slice is the unique sorted permutation, \<^const>\<open>sort\<close>) and joined by \<open>", "\<close>, otherwise
  \<open>"Unknown Error"\<close>.
\<close>

definition Error :: "ResponseError \<Rightarrow> string" where
  "Error e =
     (if Message e \<noteq> [] then Message e
      else let s = Join (sort (Errors e)) '', ''
           in if s \<noteq> [] then s else ''Unknown Error'')"

text \<open>
  \<open>type ResponseDecodingError struct { Body []byte; Message string; Status int }\<close>
\<close>

record ResponseDecodingError =
  Body :: string
  DMessage :: string
  DStatus :: int

text \<open>
  The values of Go's \<open>error\<close> interface that the core produces or passes on:
  \<open>ResponseError\<close>, \<open>RateLimitError\<close> (a \<open>ResponseError\<close> with \<open>RetryAfter int\<close>),
  \<open>ResponseDecodingError\<close>, the \<open>*strconv.NumError\<close> of \<open>strconv.Atoi\<close> (its function,
  input and cause), and the errors of collaborators (the HTTP client, \<open>ioutil.ReadAll\<close>,
  \<open>net/url\<close>, the JSON decoder), kept by their message. A run-time panic unwinds through
  every caller; it is the value \<open>Panic\<close>.
\<close>

datatype error =
    RespError ResponseError
  | RateLimitError ResponseError int
  | DecodingError ResponseDecodingError
  | NumError string string string
  | OtherError string
  | Panic string

section \<open>Decoded JSON and numbers\<close>

text \<open>
  What \<open>encoding/json\<close> decodes into an \<open>interface{}\<close>: \<open>nil\<close>, \<open>bool\<close>, \<open>float64\<close>,
  \<open>string\<close>, \<open>[]interface{}\<close> and \<open>map[string]interface{}\<close>. The pairs of an object are
  listed in the order in which the run-time system enumerates the map in a \<open>range\<close> loop,
  which Go leaves unspecified.
\<close>

datatype json =
    JNull
  | JBool bool
  | JNumber real
  | JString string
  | JArray "json list"
  | JObject "(string \<times> json) list"

text \<open>
  A \<open>float64\<close> is the real number it denotes, or not finite (an infinity or a NaN);
  rounding is not modelled.
\<close>

datatype float64 = Finite real | NonFinite

text \<open>
  The parts of the Go run-time library that the core calls and that are not part of the
  repository are parameters of the model:
  \<^item> \<open>fmt_value v\<close> is \<open>fmt.Sprint(v)\<close> (equally \<open>%v\<close>) of a decoded JSON value that is not
    a string;
  \<^item> \<open>ParseFloat s\<close> is the first result of \<open>strconv.ParseFloat(s, 64)\<close> (the core always
    discards the second);
  \<^item> \<open>int_of_unrepresentable f\<close> is the value of the conversion \<open>int(f)\<close> on an \<open>f\<close>
    that is not finite or lies beyond the range of \<open>int\<close>, which Go leaves to the
    implementation.
\<close>

record runtime =
  fmt_value :: "json \<Rightarrow> string"
  ParseFloat :: "string \<Rightarrow> float64"
  int_of_unrepresentable :: "float64 \<Rightarrow> int"

text \<open>\<open>fmt.Sprint(elem)\<close>: a string prints as itself.\<close>

fun Sprint :: "runtime \<Rightarrow> json \<Rightarrow> string" where
  "Sprint rt (JString s) = s"
| "Sprint rt v = fmt_value rt v"

text \<open>
  The conversion \<open>int(f)\<close>, where \<open>int\<close> has 64 bits: a finite value is truncated
  towards zero when the result is in the range of \<open>int\<close>.
\<close>

fun int_of_float64 :: "runtime \<Rightarrow> float64 \<Rightarrow> int" where
  "int_of_float64 rt (Finite r) =
     (if 0 \<le> r
      then if \<lfloor>r\<rfloor> < 2 ^ 63 then \<lfloor>r\<rfloor> else int_of_unrepresentable rt (Finite r)
      else if - (2 ^ 63) \<le> \<lceil>r\<rceil> then \<lceil>r\<rceil> else int_of_unrepresentable rt (Finite r))"
| "int_of_float64 rt NonFinite = int_of_unrepresentable rt NonFinite"

section \<open>GraphQL query cost\<close>

text \<open>
  \<open>type GraphQLThrottleStatus struct { MaximumAvailable, CurrentlyAvailable, RestoreRate float64 }\<close>
  and \<open>type GraphQLCost struct { RequestedQueryCost int; ActualQueryCost *int; ThrottleStatus ... }\<close>.
  The three \<open>float64\<close> fields are decoded from JSON numbers and therefore finite.
\<close>

record GraphQLThrottleStatus =
  MaximumAvailable :: real
  CurrentlyAvailable :: real
  RestoreRate :: real

record GraphQLCost =
  RequestedQueryCost :: int
  ActualQueryCost :: "int option"
  ThrottleStatus :: GraphQLThrottleStatus

text \<open>
  The quotient of two finite \<open>float64\<close> values: dividing a non-zero value by zero gives an
  infinity in Go (here \<open>NonFinite\<close>), where HOL's \<open>x / 0\<close> is \<open>0\<close>.
\<close>

definition fdiv :: "real \<Rightarrow> real \<Rightarrow> float64" where
  "fdiv x y = (if y = 0 then NonFinite else Finite (x / y))"

text \<open>
  \<open>func (c GraphQLCost) RetryAfterSeconds() float64\<close>, with the arithmetic of the reals:
  the model agrees with the code where the conversion of the cost, the difference and the
  quotient are exact in \<open>float64\<close>, as they are for the values of the examples below, and
  says nothing of the rounding or the overflow of the code elsewhere.
\<close>

definition RetryAfterSeconds :: "GraphQLCost \<Rightarrow> float64" where
  "RetryAfterSeconds c =
     (let diff = (case ActualQueryCost c of
                    Some actual \<Rightarrow> CurrentlyAvailable (ThrottleStatus c) - real_of_int actual
                  | None \<Rightarrow> CurrentlyAvailable (ThrottleStatus c) - real_of_int (RequestedQueryCost c))
      in if diff < 0 then fdiv (- diff) (RestoreRate (ThrottleStatus c)) else Finite 0)"

text \<open>
  \<open>graphQLError\<close> with its \<open>*graphQLErrorExtension\<close> (the locations play no part), and
  \<open>graphQLResponse\<close>: the query errors and the cost of \<open>*graphQLExtension\<close>; the \<open>Data\<close>
  are decoded into the caller's value.
\<close>

record graphQLErrorExtension =
  Code :: string
  Documentation :: string

record graphQLError =
  gqlMessage :: string
  gqlExtensions :: "graphQLErrorExtension option"

record graphQLResponse =
  grErrors :: "graphQLError list"
  grExtensions :: "GraphQLCost option"

section \<open>HTTP responses\<close>

text \<open>
  What the classifier does with the bytes of a body is \<open>json.Unmarshal\<close> into
  \<open>struct { Error string `json:"error"`; Errors interface{} `json:"errors"` }\<close>.
  A body is therefore given by its bytes and the outcome of that call: the decoder's
  error message, or the two fields (\<open>Errors\<close> is \<open>nil\<close>, here \<open>None\<close>, when the field is
  missing or \<open>null\<close>).
\<close>

datatype unmarshalled = Invalid string | Fields string "json option"

text \<open>
  The body of a successful response is decoded into the caller's value \<open>v\<close>:
  \<open>BodyResult\<close> is the error of \<open>json.NewDecoder(resp.Body).Decode(&v)\<close>, if any, and
  \<open>BodyGraphQL\<close> is what that call stores when \<open>v\<close> is a \<open>*graphQLResponse\<close>.
\<close>

record Response =
  StatusCode :: int
  Header :: "string \<Rightarrow> string"
  BodyBytes :: string
  BodyError :: "string option"
  BodyJSON :: unmarshalled
  BodyResult :: "string option"
  BodyGraphQL :: graphQLResponse

text \<open>
  \<open>Header h\<close> is \<open>r.Header.Get(h)\<close>, the empty string for a header that is absent.
  \<open>BodyError\<close> is the error of \<open>ioutil.ReadAll(r.Body)\<close>, if any.
\<close>

section \<open>The error classifier\<close>

text \<open>\<open>http.StatusText(http.StatusNotAcceptable)\<close>\<close>

definition StatusText_NotAcceptable :: string where
  "StatusText_NotAcceptable = ''Not Acceptable''"

text \<open>\<open>func wrapSpecificError(r *http.Response, err ResponseError) error\<close>\<close>

definition wrapSpecificError :: "runtime \<Rightarrow> Response \<Rightarrow> ResponseError \<Rightarrow> error" where
  "wrapSpecificError rt r err =
     (if Status err = 429
      then RateLimitError err (int_of_float64 rt (ParseFloat rt (Header r ''Retry-After'')))
      else if Status err = 406
      then RespError (err\<lparr>Message := StatusText_NotAcceptable\<rparr>)
      else RespError err)"

text \<open>\<open>fmt.Sprintf("%v: %v", k, elem)\<close>\<close>

definition topicAndElem :: "runtime \<Rightarrow> string \<Rightarrow> json \<Rightarrow> string" where
  "topicAndElem rt k elem = k @ '': '' @ Sprint rt elem"

text \<open>
  The inner loop of the map case, over the elements of one key's array: the primary message
  is set by the first element that finds it empty, and every element is appended to the list.
\<close>

fun flattenElems :: "runtime \<Rightarrow> string \<Rightarrow> json list \<Rightarrow> ResponseError \<Rightarrow> ResponseError" where
  "flattenElems rt k [] re = re"
| "flattenElems rt k (elem # elems) re =
     flattenElems rt k elems
       (re\<lparr>Message := (if Message re = [] then topicAndElem rt k elem else Message re),
           Errors := Errors re @ [topicAndElem rt k elem]\<rparr>)"

text \<open>
  The outer loop of the map case, \<open>for k, v := range ...\<close> with
  \<open>switch reflect.TypeOf(v).Kind()\<close>: a slice is flattened element by element, a string is one
  element, any other kind is skipped; \<open>reflect.TypeOf(nil)\<close> is \<open>nil\<close>, so that \<open>.Kind()\<close>
  panics on a \<open>null\<close> value.
\<close>

fun flattenMap :: "runtime \<Rightarrow> (string \<times> json) list \<Rightarrow> ResponseError \<Rightarrow> error + ResponseError" where
  "flattenMap rt [] re = Inr re"
| "flattenMap rt ((k, v) # kvs) re =
     (case v of
        JArray elems \<Rightarrow> flattenMap rt kvs (flattenElems rt k elems re)
      | JString elem \<Rightarrow> flattenMap rt kvs (flattenElems rt k [JString elem] re)
      | JNull \<Rightarrow> Inl (Panic ''invalid memory address or nil pointer dereference'')
      | _ \<Rightarrow> flattenMap rt kvs re)"

text \<open>
  \<open>func CheckResponseError(r *http.Response) error\<close>; \<open>None\<close> is \<open>nil\<close>.
  In the slice case \<open>responseError.Errors\<close> starts empty, so the loop of appends builds the
  list of the printed elements.
\<close>

definition CheckResponseError :: "runtime \<Rightarrow> Response \<Rightarrow> error option" where
  "CheckResponseError rt r =
     (if 200 \<le> StatusCode r \<and> StatusCode r < 300 then None
      else case BodyError r of
        Some e \<Rightarrow> Some (OtherError e)
      | None \<Rightarrow>
         (case (if BodyBytes r \<noteq> [] then BodyJSON r else Fields [] None) of
            Invalid msg \<Rightarrow>
              Some (DecodingError \<lparr>Body = BodyBytes r, DMessage = msg, DStatus = StatusCode r\<rparr>)
          | Fields err errs \<Rightarrow>
              (let responseError = \<lparr>Status = StatusCode r, Message = err, Errors = []\<rparr>
               in case errs of
                    None \<Rightarrow> Some (wrapSpecificError rt r responseError)
                  | Some (JString s) \<Rightarrow>
                      Some (wrapSpecificError rt r (responseError\<lparr>Message := s\<rparr>))
                  | Some (JArray elems) \<Rightarrow>
                      (let es = map (Sprint rt) elems
                       in Some (wrapSpecificError rt r
                                  (responseError\<lparr>Errors := es, Message := Join es '', ''\<rparr>)))
                  | Some (JObject kvs) \<Rightarrow>
                      (case flattenMap rt kvs responseError of
                         Inl p \<Rightarrow> Some p
                       | Inr re \<Rightarrow> Some (wrapSpecificError rt r re))
                  | Some _ \<Rightarrow> Some (wrapSpecificError rt r responseError))))"

text \<open>The \<open>ResponseError\<close> that an error is or embeds.\<close>

fun embedded :: "error \<Rightarrow> ResponseError option" where
  "embedded (RespError re) = Some re"
| "embedded (RateLimitError re n) = Some re"
| "embedded _ = None"

text \<open>
  The message that the map case leaves: the one already set, otherwise the first flattened
  pair, if there is one.
\<close>

definition primary :: "string \<Rightarrow> string list \<Rightarrow> string" where
  "primary m ps = (if m \<noteq> [] then m else case ps of [] \<Rightarrow> [] | p # _ \<Rightarrow> p)"

text \<open>A run-time library instance on which examples are evaluated.\<close>

definition rt0 :: runtime where
  "rt0 = \<lparr>fmt_value = (\<lambda>v. ''?''),
          ParseFloat = (\<lambda>s. if s = ''2'' then Finite 2 else Finite 0),
          int_of_unrepresentable = (\<lambda>f. 0)\<rparr>"

text \<open>The pairs of a map of arrays, flattened key by key and element by element.\<close>

definition pairs :: "runtime \<Rightarrow> (string \<times> json list) list \<Rightarrow> string list" where
  "pairs rt kxs = concat (map (\<lambda>(k, xs). map (topicAndElem rt k) xs) kxs)"

text \<open>Responses on which examples are evaluated.\<close>

definition mkResponse :: "int \<Rightarrow> (string \<Rightarrow> string) \<Rightarrow> string \<Rightarrow> unmarshalled \<Rightarrow> Response" where
  "mkResponse code hdr bytes body =
     \<lparr>StatusCode = code, Header = hdr, BodyBytes = bytes, BodyError = None, BodyJSON = body,
      BodyResult = None, BodyGraphQL = \<lparr>grErrors = [], grExtensions = None\<rparr>\<rparr>"

definition no_headers :: "string \<Rightarrow> string" where
  "no_headers h = []"

section \<open>Query parameters of a request\<close>

text \<open>
  \<open>url.Values\<close> is \<open>map[string][]string\<close>: an association list with one entry for each key,
  in the order in which a \<open>range\<close> loop enumerates the map. \<open>Add\<close> and \<open>Encode\<close> belong
  to Go's \<open>net/url\<close> and follow its documentation: \<open>Add\<close> appends the value to the values
  of the key, \<open>Encode\<close> writes \<open>key=value\<close> for every value of every key, the keys sorted,
  separated by \<open>&\<close>.
\<close>

type_synonym Values = "(string \<times> string list) list"

definition values_of :: "Values \<Rightarrow> string \<Rightarrow> string list" where
  "values_of vs k = (case map_of vs k of None \<Rightarrow> [] | Some xs \<Rightarrow> xs)"

text \<open>\<open>func (v Values) Get(key string) string\<close>: the first value of the key, or \<open>""\<close>.\<close>

definition Get :: "Values \<Rightarrow> string \<Rightarrow> string" where
  "Get vs k = (case values_of vs k of [] \<Rightarrow> [] | x # xs \<Rightarrow> x)"

text \<open>\<open>func (v Values) Add(key, value string)\<close>\<close>

fun Add :: "Values \<Rightarrow> string \<Rightarrow> string \<Rightarrow> Values" where
  "Add [] k v = [(k, [v])]"
| "Add ((k', xs) # vs) k v = (if k' = k then (k', xs @ [v]) # vs else (k', xs) # Add vs k v)"

text \<open>
  The parameters that \<open>Encode\<close> writes, in the order in which it writes them, before
  escaping.
\<close>

definition encoded_pairs :: "Values \<Rightarrow> (string \<times> string) list" where
  "encoded_pairs vs = concat (map (\<lambda>k. map (\<lambda>v. (k, v)) (values_of vs k)) (sort (map fst vs)))"

text \<open>\<open>func (v Values) Encode() string\<close>; \<open>esc\<close> is \<open>url.QueryEscape\<close>.\<close>

definition Encode :: "(string \<Rightarrow> string) \<Rightarrow> Values \<Rightarrow> string" where
  "Encode esc vs = Join (map (\<lambda>(k, v). esc k @ ''='' @ esc v) (encoded_pairs vs)) ''&''"

text \<open>
  The query merging of \<open>NewRequest\<close>:
  \<open>for k, values := range u.Query() { for _, v := range values { optionsQuery.Add(k, v) } }\<close>
\<close>

fun addValues :: "Values \<Rightarrow> string \<Rightarrow> string list \<Rightarrow> Values" where
  "addValues optionsQuery k [] = optionsQuery"
| "addValues optionsQuery k (v # vals) = addValues (Add optionsQuery k v) k vals"

fun mergeQuery :: "Values \<Rightarrow> Values \<Rightarrow> Values" where
  "mergeQuery optionsQuery [] = optionsQuery"
| "mergeQuery optionsQuery ((k, vals) # uQuery) = mergeQuery (addValues optionsQuery k vals) uQuery"

text \<open>
  The \<open>RawQuery\<close> that \<open>NewRequest\<close> gives the request's URL. \<open>rawQuery\<close> and \<open>uQuery\<close>
  are the query of the resolved URL and its parameters (\<open>u.Query()\<close>); \<open>options\<close> is
  \<open>None\<close> for \<open>nil\<close> and otherwise the result of \<open>query.Values(options)\<close>, the encoding of the
  options value by \<open>go-querystring\<close>, or its error.
\<close>

definition NewRequest_RawQuery ::
  "(string \<Rightarrow> string) \<Rightarrow> string \<Rightarrow> Values \<Rightarrow> (string + Values) option \<Rightarrow> error + string" where
  "NewRequest_RawQuery esc rawQuery uQuery options =
     (case options of
        None \<Rightarrow> Inr rawQuery
      | Some (Inl err) \<Rightarrow> Inl (OtherError err)
      | Some (Inr optionsQuery) \<Rightarrow> Inr (Encode esc (mergeQuery optionsQuery uQuery)))"

section \<open>Splitting and parsing integers\<close>

text \<open>\<open>strings.Split(s, sep)\<close> for a separator of one byte.\<close>

fun Split :: "string \<Rightarrow> char \<Rightarrow> string list" where
  "Split [] sep = [[]]"
| "Split (c # cs) sep =
     (if c = sep then [] # Split cs sep
      else case Split cs sep of [] \<Rightarrow> [[c]] | x # xs \<Rightarrow> (c # x) # xs)"

definition isDigit :: "char \<Rightarrow> bool" where
  "isDigit c = (CHR ''0'' \<le> c \<and> c \<le> CHR ''9'')"

definition digitsValue :: "string \<Rightarrow> int" where
  "digitsValue ds = foldl (\<lambda>n c. n * 10 + (of_char c - 48)) 0 ds"

text \<open>
  \<open>strconv.Atoi(s)\<close> where \<open>int\<close> has 64 bits: an optional sign and decimal digits. The
  result is the value and the error; on a syntax error the value is 0, out of range it is the
  nearest bound.
\<close>

definition Atoi :: "string \<Rightarrow> int \<times> error option" where
  "Atoi s =
     (let neg = (case s of [] \<Rightarrow> False | c # cs \<Rightarrow> c = CHR ''-'');
          ds = (case s of [] \<Rightarrow> [] | c # cs \<Rightarrow> if c = CHR ''-'' \<or> c = CHR ''+'' then cs else s)
      in if ds = [] \<or> \<not> list_all isDigit ds
         then (0, Some (NumError ''Atoi'' s ''invalid syntax''))
         else let n = digitsValue ds
              in if \<not> neg \<and> 2 ^ 63 \<le> n
                 then (2 ^ 63 - 1, Some (NumError ''Atoi'' s ''value out of range''))
                 else if neg \<and> 2 ^ 63 < n
                 then (- (2 ^ 63), Some (NumError ''Atoi'' s ''value out of range''))
                 else (if neg then - n else n, None))"

section \<open>The pagination extractor\<close>

text \<open>
  \<open>ListOptions\<close>, of which the extractor sets \<open>PageInfo\<close> and \<open>Limit\<close> (every other field
  keeps its zero value), and \<open>type Pagination struct { NextPageOptions, PreviousPageOptions
  *ListOptions }\<close>; \<open>None\<close> is the \<open>nil\<close> pointer.
\<close>

record ListOptions =
  PageInfo :: string
  Limit :: int

record Pagination =
  NextPageOptions :: "ListOptions option"
  PreviousPageOptions :: "ListOptions option"

text \<open>
  What the extractor calls and the sources do not hold is a parameter:
  \<^item> \<open>FindStringSubmatch\<close> is \<open>linkRegex.FindStringSubmatch\<close>; the regular expression
    \<open>linkRegex\<close> is declared in a file of the repository that is not among the sources.
    The result is the match followed by its captures, empty (\<open>nil\<close>) when there is no match;
  \<^item> \<open>url_Parse u\<close> is the \<open>RawQuery\<close> of \<open>url.Parse(u)\<close>, \<open>None\<close> when that fails;
  \<^item> \<open>url_ParseQuery q\<close> is \<open>url.ParseQuery(q)\<close>: the error's message, or the values.
\<close>

record urllib =
  FindStringSubmatch :: "string \<Rightarrow> string list"
  url_Parse :: "string \<Rightarrow> string option"
  url_ParseQuery :: "string \<Rightarrow> string + Values"

text \<open>\<open>ResponseDecodingError{Message: m}\<close>\<close>

definition decodingError :: "string \<Rightarrow> error" where
  "decodingError m = DecodingError \<lparr>Body = [], DMessage = m, DStatus = 0\<rparr>"

text \<open>
  The body of the loop of \<open>extractPagination\<close> for one link entry, up to the choice of the
  cursor: the error it returns, or \<open>match[2]\<close> and the options of the page.
\<close>

definition extractLink :: "urllib \<Rightarrow> string \<Rightarrow> error + (string \<times> ListOptions)" where
  "extractLink lib link =
     (let match = FindStringSubmatch lib link
      in if length match \<noteq> 3
         then Inl (decodingError ''could not extract pagination link header'')
         else case url_Parse lib (match ! 1) of
                None \<Rightarrow> Inl (decodingError ''pagination does not contain a valid URL'')
              | Some rawQuery \<Rightarrow>
                 (case url_ParseQuery lib rawQuery of
                    Inl err \<Rightarrow> Inl (OtherError err)
                  | Inr params \<Rightarrow>
                     (let pageInfo = Get params ''page_info''
                      in if pageInfo = [] then Inl (decodingError ''page_info is missing'')
                         else let limit = Get params ''limit''
                              in case (if limit \<noteq> [] then Atoi limit else (0, None)) of
                                   (n, Some err) \<Rightarrow> Inl err
                                 | (n, None) \<Rightarrow>
                                     Inr (match ! 2, \<lparr>PageInfo = pageInfo, Limit = n\<rparr>))))"

text \<open>The loop over the link entries.\<close>

fun extractLinks :: "urllib \<Rightarrow> string list \<Rightarrow> Pagination \<Rightarrow> error + Pagination" where
  "extractLinks lib [] pagination = Inr pagination"
| "extractLinks lib (link # links) pagination =
     (case extractLink lib link of
        Inl err \<Rightarrow> Inl err
      | Inr (rel, paginationListOptions) \<Rightarrow>
          if rel = ''next''
          then extractLinks lib links (pagination\<lparr>NextPageOptions := Some paginationListOptions\<rparr>)
          else extractLinks lib links
                 (pagination\<lparr>PreviousPageOptions := Some paginationListOptions\<rparr>))"

text \<open>\<open>func extractPagination(linkHeader string) (*Pagination, error)\<close>\<close>

definition extractPagination :: "urllib \<Rightarrow> string \<Rightarrow> error + Pagination" where
  "extractPagination lib linkHeader =
     (if linkHeader = [] then Inr \<lparr>NextPageOptions = None, PreviousPageOptions = None\<rparr>
      else extractLinks lib (Split linkHeader CHR '','')
             \<lparr>NextPageOptions = None, PreviousPageOptions = None\<rparr>)"

text \<open>
  A \<open>rel="next"\<close> relation is present in a header when one of its entries matches with
  \<open>next\<close> as the second capture.
\<close>

definition has_next_rel :: "urllib \<Rightarrow> string \<Rightarrow> bool" where
  "has_next_rel lib linkHeader =
     (linkHeader \<noteq> [] \<and>
      list_ex (\<lambda>link. length (FindStringSubmatch lib link) = 3
                       \<and> FindStringSubmatch lib link ! 2 = ''next'')
        (Split linkHeader CHR '',''))"

text \<open>
  An entry extracts when it matches with two captures, its URL and the query of the URL
  parse, the query has a \<open>page_info\<close>, and its \<open>limit\<close> is empty, absent or an integer.
\<close>

definition entry_extracts :: "urllib \<Rightarrow> string \<Rightarrow> bool" where
  "entry_extracts lib link =
     (length (FindStringSubmatch lib link) = 3 \<and>
      (case url_Parse lib (FindStringSubmatch lib link ! 1) of
         None \<Rightarrow> False
       | Some rawQuery \<Rightarrow>
           (case url_ParseQuery lib rawQuery of
              Inl err \<Rightarrow> False
            | Inr params \<Rightarrow>
                Get params ''page_info'' \<noteq> []
                \<and> (Get params ''limit'' = [] \<or> snd (Atoi (Get params ''limit'')) = None))))"

text \<open>
  Modelled from the spec: the regular expression \<open>linkRegex\<close> is not among the sources.
  The spec gives its pattern as \<open><URL>; rel="previous"\<close> or \<open><URL>; rel="next"\<close> with two
  captures, the URL and the relation; the repository's tests separate entries by a comma and
  a space, so spaces around an entry are allowed. The first element is the match, which is
  the whole entry.
\<close>

definition linkRegex_spec :: "string \<Rightarrow> string list" where
  \<open>linkRegex_spec link =
     (case dropWhile (\<lambda>c. c = CHR '' '') link of
        [] \<Rightarrow> []
      | c # rest \<Rightarrow>
          (let u = takeWhile (\<lambda>c. c \<noteq> CHR ''>'') rest;
               t = dropWhile (\<lambda>c. c \<noteq> CHR ''>'') rest;
               r = rev (dropWhile (\<lambda>c. c = CHR '' '') (rev (drop 1 t)))
           in if c \<noteq> CHR ''<'' \<or> u = [] \<or> t = [] then []
              else if r = ''; rel="next"'' then [link, u, ''next'']
              else if r = ''; rel="previous"'' then [link, u, ''previous'']
              else []))\<close>

text \<open>
  Stand-ins for \<open>url.Parse\<close> and \<open>url.ParseQuery\<close> on the URLs of the examples, which are
  of the form \<open>scheme://host?key=value&...\<close> without escapes: the raw query is what follows
  the first \<open>?\<close>, its parameters are separated by \<open>&\<close> and cut at the first \<open>=\<close>; a URL that
  starts with a colon has no scheme, and a \<open>%\<close> that begins no escape is an error.
\<close>

definition url_Parse0 :: "string \<Rightarrow> string option" where
  "url_Parse0 u =
     (case u of [] \<Rightarrow> Some []
      | c # cs \<Rightarrow> if c = CHR '':'' then None
                  else Some (drop 1 (dropWhile (\<lambda>c. c \<noteq> CHR ''?'') u)))"

fun addPairs :: "string list \<Rightarrow> Values \<Rightarrow> Values" where
  "addPairs [] m = m"
| "addPairs (p # ps) m =
     (if p = [] then addPairs ps m
      else addPairs ps (Add m (takeWhile (\<lambda>c. c \<noteq> CHR ''='') p)
                              (drop 1 (dropWhile (\<lambda>c. c \<noteq> CHR ''='') p))))"

definition url_ParseQuery0 :: "string \<Rightarrow> string + Values" where
  "url_ParseQuery0 q =
     (if CHR ''%'' \<in> set q then Inl ''invalid URL escape''
      else Inr (addPairs (Split q CHR ''&'') []))"

definition lib0 :: urllib where
  "lib0 = \<lparr>FindStringSubmatch = linkRegex_spec, url_Parse = url_Parse0,
           url_ParseQuery = url_ParseQuery0\<rparr>"

section \<open>The transport executor\<close>

text \<open>
  \<open>type RateLimitInfo struct { RequestCount, BucketSize int; GraphQLCost *GraphQLCost;
  RetryAfterSeconds float64 }\<close> (the last field is \<open>RateLimitRetryAfterSeconds\<close> here), and
  the fields of \<open>Client\<close> that the executor reads or writes.
\<close>

record RateLimitInfo =
  RequestCount :: int
  BucketSize :: int
  GraphQLCost :: "GraphQLCost option"
  RateLimitRetryAfterSeconds :: float64

record Client =
  retries :: int
  attempts :: int
  apiVersion :: string
  RateLimits :: RateLimitInfo

text \<open>
  \<open>c.Client.Do(req)\<close> returns an error of the transport or a response. What the executor
  does to the world is a trace of events: a request sent, a call of \<open>time.Sleep\<close>, and a call
  of the delay function that \<open>WithSleep\<close> injects into the client (\<open>c.sleep\<close>), each with
  its duration in nanoseconds. Logging is not modelled.
\<close>

datatype outcome = TransportError string | Responded Response

datatype event = Sent | TimeSleep int | ClientSleep int

text \<open>
  \<open>time.Duration(n) * time.Second\<close>: a \<open>Duration\<close> is an \<open>int64\<close> of nanoseconds, and the
  product wraps around.
\<close>

definition int64 :: "int \<Rightarrow> int" where
  "int64 x = (x + 2 ^ 63) mod 2 ^ 64 - 2 ^ 63"

definition seconds :: "int \<Rightarrow> int" where
  "seconds n = int64 (int64 n * 1000000000)"

text \<open>
  One iteration of the retry loop of \<open>doGetHeaders\<close>, after \<open>c.Client.Do(req)\<close>, with
  \<open>budget\<close> the value of the local variable \<open>retries\<close>: the
  loop ends with a value to return or a response to go on with, or it goes round again,
  after the sleeps listed.
\<close>

datatype decision = Done "error + Response" | Again "event list"

definition attempt :: "runtime \<Rightarrow> outcome \<Rightarrow> int \<Rightarrow> decision" where
  "attempt rt out budget =
     (case out of
        TransportError err \<Rightarrow> Done (Inl (OtherError err))
      | Responded resp \<Rightarrow>
          (case CheckResponseError rt resp of
             None \<Rightarrow> Done (Inr resp)
           | Some (Panic p) \<Rightarrow> Done (Inl (Panic p))
           | Some respErr \<Rightarrow>
               if budget \<le> 1 then Done (Inl respErr)
               else (case respErr of
                       RateLimitError re retryAfter \<Rightarrow> Again [TimeSleep (seconds retryAfter)]
                     | _ \<Rightarrow> if StatusCode resp = 503 then Again [] else Done (Inl respErr))))"

text \<open>
  The retry loop (\<open>budget\<close> is the local variable \<open>retries\<close>): \<open>srv n\<close> is what \<open>c.Client.Do(req)\<close> returns at the \<open>n\<close>-th attempt of the
  call. The result is what the loop ends with, the client and the trace.
\<close>

function retryLoop ::
  "runtime \<Rightarrow> (int \<Rightarrow> outcome) \<Rightarrow> int \<Rightarrow> Client \<Rightarrow> (error + Response) \<times> Client \<times> event list" where
  "retryLoop rt srv budget c =
     (let c1 = c\<lparr>attempts := attempts c + 1\<rparr>
      in case attempt rt (srv (attempts c1)) budget of
           Done r \<Rightarrow> (r, c1, [Sent])
         | Again evs \<Rightarrow>
             (case retryLoop rt srv (budget - 1) c1 of
                (r, c2, tr) \<Rightarrow> (r, c2, Sent # evs @ tr)))"
  by pat_completeness auto
termination
  by (relation "measure (\<lambda>(rt, srv, budget, c). nat budget)")
    (auto simp: attempt_def split: outcome.splits option.splits error.splits if_splits)

declare retryLoop.simps [simp del]

text \<open>
  \<open>func (c *Client) doGetHeaders(req *http.Request, v interface{}) (http.Header, error)\<close>,
  returning the response that the loop ended with instead of its headers. \<open>reqBodyErr\<close> is
  the error of reading the body of the request, if any, and \<open>v\<close> tells whether the caller's
  value is not \<open>nil\<close>.
\<close>

definition doRequest ::
  "runtime \<Rightarrow> (int \<Rightarrow> outcome) \<Rightarrow> string option \<Rightarrow> bool \<Rightarrow> Client
     \<Rightarrow> (error + Response) \<times> Client \<times> event list" where
  "doRequest rt srv reqBodyErr v c =
     (let c0 = c\<lparr>attempts := 0\<rparr>
      in case reqBodyErr of
           Some err \<Rightarrow> (Inl (OtherError err), c0, [])
         | None \<Rightarrow>
            (case retryLoop rt srv (retries c0) c0 of
               (Inl err, c1, tr) \<Rightarrow> (Inl err, c1, tr)
             | (Inr resp, c1, tr) \<Rightarrow>
                 (let c2 = (if apiVersion c1 = ''stable''
                               \<and> Header resp ''X-Shopify-API-Version'' \<noteq> []
                            then c1\<lparr>apiVersion := Header resp ''X-Shopify-API-Version''\<rparr>
                            else c1)
                  in case (if v then BodyResult resp else None) of
                       Some err \<Rightarrow> (Inl (OtherError err), c2, tr)
                     | None \<Rightarrow>
                        (let s = Split (Header resp ''X-Shopify-Shop-Api-Call-Limit'') CHR ''/'';
                             rl = RateLimits c2;
                             rl1 = (if length s = 2
                                    then rl\<lparr>RequestCount := fst (Atoi (s ! 0)),
                                            BucketSize := fst (Atoi (s ! 1))\<rparr>
                                    else rl);
                             rl2 = rl1\<lparr>RateLimitRetryAfterSeconds :=
                                        ParseFloat rt (Header resp ''Retry-After'')\<rparr>
                         in (Inr resp, c2\<lparr>RateLimits := rl2\<rparr>, tr)))))"

definition doGetHeaders ::
  "runtime \<Rightarrow> (int \<Rightarrow> outcome) \<Rightarrow> string option \<Rightarrow> bool \<Rightarrow> Client
     \<Rightarrow> (error + (string \<Rightarrow> string)) \<times> Client \<times> event list" where
  "doGetHeaders rt srv reqBodyErr v c =
     (case doRequest rt srv reqBodyErr v c of
        (Inl err, c', tr) \<Rightarrow> (Inl err, c', tr)
      | (Inr resp, c', tr) \<Rightarrow> (Inr (Header resp), c', tr))"

text \<open>Clients and servers on which examples are evaluated.\<close>

definition client0 :: "int \<Rightarrow> Client" where
  "client0 n = \<lparr>retries = n, attempts = 0, apiVersion = ''2023-01'',
                RateLimits = \<lparr>RequestCount = 0, BucketSize = 0, GraphQLCost = None,
                              RateLimitRetryAfterSeconds = Finite 0\<rparr>\<rparr>"

definition throttled_headers :: "string \<Rightarrow> string" where
  "throttled_headers h =
     (if h = ''Retry-After'' then ''2''
      else if h = ''X-Shopify-Shop-Api-Call-Limit'' then ''40/40'' else [])"

definition srv_429_then_200 :: "string \<Rightarrow> unmarshalled \<Rightarrow> int \<Rightarrow> outcome" where
  "srv_429_then_200 bytes body n =
     (if n = 1 then Responded (mkResponse 429 throttled_headers bytes body)
      else Responded (mkResponse 200 no_headers ''{}'' (Fields [] None)))"

definition ok_headers :: "string \<Rightarrow> string" where
  "ok_headers h = (if h = ''X-Shopify-Shop-Api-Call-Limit'' then ''12/40'' else [])"

definition srv_ok :: "int \<Rightarrow> outcome" where
  "srv_ok n = Responded (mkResponse 200 ok_headers ''{}'' (Fields [] None))"

section \<open>The GraphQL query loop\<close>

text \<open>
  The response that the retry loop of a call ends with, if it ends with one:
  \<open>Decode(&v)\<close> stores into the caller's value what it decodes from it, whether it then
  returns an error or not.
\<close>

definition lastResponse :: "runtime \<Rightarrow> (int \<Rightarrow> outcome) \<Rightarrow> Client \<Rightarrow> Response option" where
  "lastResponse rt srv c =
     (case retryLoop rt srv (retries c) (c\<lparr>attempts := 0\<rparr>) of
        (Inr resp, c', tr) \<Rightarrow> Some resp
      | (Inl err, c', tr) \<Rightarrow> None)"

text \<open>
  \<open>s.client.Post("graphql.json", data, &gr)\<close>, that is \<open>CreateAndDo\<close>: \<open>NewRequest\<close> and
  \<open>doGetHeaders\<close> with the \<open>graphQLResponse\<close> as the value to decode into.
  \<open>newRequestErr\<close> is the error of \<open>NewRequest\<close>, if any. The result is the error, the
  \<open>graphQLResponse\<close> after the call, the client and the trace.
\<close>

definition Post ::
  "runtime \<Rightarrow> (int \<Rightarrow> outcome) \<Rightarrow> string option \<Rightarrow> Client
     \<Rightarrow> error option \<times> graphQLResponse \<times> Client \<times> event list" where
  "Post rt srv newRequestErr c =
     (case newRequestErr of
        Some err \<Rightarrow> (Some (OtherError err), \<lparr>grErrors = [], grExtensions = None\<rparr>, c, [])
      | None \<Rightarrow>
          (case doRequest rt srv None True c of
             (r, c', tr) \<Rightarrow>
               (case r of Inl err \<Rightarrow> Some err | Inr resp \<Rightarrow> None,
                case lastResponse rt srv c of
                  Some resp \<Rightarrow> BodyGraphQL resp
                | None \<Rightarrow> \<lparr>grErrors = [], grExtensions = None\<rparr>,
                c', tr)))"

text \<open>\<open>err.Extensions != nil && err.Extensions.Code == graphQLErrorCodeThrottled\<close>\<close>

definition throttled :: "graphQLError \<Rightarrow> bool" where
  "throttled err = (case gqlExtensions err of None \<Rightarrow> False | Some ext \<Rightarrow> Code ext = ''THROTTLED'')"

text \<open>
  The loop of \<open>Query\<close> over the query errors, with \<open>reached\<close> the value of
  \<open>attempts >= s.client.retries\<close>: the message of the error at which the loop returns a
  rate-limit error, or the messages collected (\<open>re.Errors\<close>) and \<open>doRetry\<close>.
\<close>

fun scanErrors :: "bool \<Rightarrow> graphQLError list \<Rightarrow> string list \<Rightarrow> bool \<Rightarrow> string + (string list \<times> bool)" where
  "scanErrors reached [] errs doRetry = Inr (errs, doRetry)"
| "scanErrors reached (err # rest) errs doRetry =
     (if throttled err
      then if reached then Inl (gqlMessage err)
           else scanErrors reached rest (errs @ [gqlMessage err]) True
      else scanErrors reached rest (errs @ [gqlMessage err]) doRetry)"

text \<open>
  One iteration of the loop of \<open>Query\<close>, with \<open>attemptsSoFar\<close> the value of the local variable
  \<open>attempts\<close>: the iteration returns, or the loop goes round again with a new value of
  \<open>attempts\<close>.
\<close>

datatype qdecision = QDone "error option" Client "event list" | QRetry int Client "event list"

definition queryRound ::
  "runtime \<Rightarrow> (int \<Rightarrow> outcome) \<Rightarrow> string option \<Rightarrow> int \<Rightarrow> Client \<Rightarrow> qdecision" where
  "queryRound rt srv newRequestErr attemptsSoFar c =
     (case Post rt srv newRequestErr c of
        (err, gr, c1, tr) \<Rightarrow>
          (let attemptsNow = attemptsSoFar + attempts c1;
               c2 = c1\<lparr>attempts := attemptsNow\<rparr>;
               ra = (case grExtensions gr of None \<Rightarrow> Finite 0
                     | Some cost \<Rightarrow> RetryAfterSeconds cost);
               c3 = (case grExtensions gr of None \<Rightarrow> c2
                     | Some cost \<Rightarrow>
                         c2\<lparr>RateLimits := (RateLimits c2)
                              \<lparr>GraphQLCost := Some cost, RateLimitRetryAfterSeconds := ra\<rparr>\<rparr>)
           in if grErrors gr \<noteq> []
              then (case scanErrors (retries c3 \<le> attemptsNow) (grErrors gr) [] False of
                      Inl m \<Rightarrow>
                        QDone (Some (RateLimitError \<lparr>Status = 200, Message = m, Errors = []\<rparr>
                                       (int_of_float64 rt ra))) c3 tr
                    | Inr (errs, doRetry) \<Rightarrow>
                        if doRetry
                        then QRetry attemptsNow c3
                               (tr @ [ClientSleep (seconds (int_of_float64 rt ra))])
                        else QDone (Some (RespError \<lparr>Status = 200, Message = [], Errors = errs\<rparr>))
                               c3 tr)
              else QDone err c3 tr))"

text \<open>
  The loop of \<open>Query\<close>: \<open>srv k\<close> answers the attempts of the \<open>k\<close>-th call of \<open>Post\<close>.
\<close>

function Query_loop ::
  "runtime \<Rightarrow> (nat \<Rightarrow> int \<Rightarrow> outcome) \<Rightarrow> string option \<Rightarrow> nat \<Rightarrow> int \<Rightarrow> Client
     \<Rightarrow> error option \<times> Client \<times> event list" where
  "Query_loop rt srv newRequestErr k attemptsSoFar c =
     (case queryRound rt (srv k) newRequestErr attemptsSoFar c of
        QDone err c' tr \<Rightarrow> (err, c', tr)
      | QRetry attemptsNow c' tr \<Rightarrow>
          (case Query_loop rt srv newRequestErr (Suc k) attemptsNow c' of
             (err, c'', tr') \<Rightarrow> (err, c'', tr @ tr')))"
  by pat_completeness auto
termination
proof (relation "measure (\<lambda>(rt, srv, newRequestErr, k, attemptsSoFar, c). nat (retries c - attemptsSoFar))")
  show "wf (measure (\<lambda>(rt, srv, newRequestErr, k, attemptsSoFar, c). nat (retries c - attemptsSoFar)))"
    by simp
next
  fix rt :: runtime and srv :: "nat \<Rightarrow> int \<Rightarrow> outcome" and newRequestErr k attemptsSoFar c
    and attemptsNow c' tr
  assume q: "queryRound rt (srv k) newRequestErr attemptsSoFar c = QRetry attemptsNow c' tr"
  have scan: "scanErrors reached es errs d = Inr (errs', True) \<Longrightarrow> d \<or> \<not> reached"
    for reached es errs d errs'
    by (induction reached es errs d rule: scanErrors.induct) (auto split: if_splits)
  have loop: "attempts c0 < attempts c1 \<and> retries c1 = retries c0"
    if "retryLoop rt s b c0 = (r, c1, t)" for s b c0 r c1 t
    using that
  proof (induction rt s b c0 arbitrary: r c1 t rule: retryLoop.induct)
    case (1 rt s b c0)
    show ?case
    proof (cases "attempt rt (s (attempts c0 + 1)) b")
      case (Done x)
      with "1.prems" show ?thesis
        by (auto simp: retryLoop.simps [of rt s b c0])
    next
      case (Again evs)
      obtain r2 c2 t2 where
        rec: "retryLoop rt s (b - 1) (c0\<lparr>attempts := attempts c0 + 1\<rparr>) = (r2, c2, t2)"
        by (cases "retryLoop rt s (b - 1) (c0\<lparr>attempts := attempts c0 + 1\<rparr>)") auto
      from "1.IH" [OF refl _ rec] Again
      have "attempts c0 + 1 < attempts c2 \<and> retries c2 = retries c0"
        by simp
      moreover from "1.prems" Again rec have "c1 = c2"
        by (simp add: retryLoop.simps [of rt s b c0])
      ultimately show ?thesis by simp
    qed
  qed
  have post: "0 < attempts c1 \<and> retries c1 = retries c"
    if "Post rt (srv k) None c = (err, gr, c1, t)" for err gr c1 t
  proof -
    obtain r cl tl where l: "retryLoop rt (srv k) (retries c) (c\<lparr>attempts := 0\<rparr>) = (r, cl, tl)"
      by (cases "retryLoop rt (srv k) (retries c) (c\<lparr>attempts := 0\<rparr>)") auto
    from loop [OF l] have "0 < attempts cl \<and> retries cl = retries c" by simp
    with that l show ?thesis
      by (auto simp: Post_def doRequest_def Let_def split: sum.splits option.splits if_splits)
  qed
  obtain err gr c1 t where p: "Post rt (srv k) newRequestErr c = (err, gr, c1, t)"
    by (cases "Post rt (srv k) newRequestErr c") auto
  from q p have ne: "grErrors gr \<noteq> []"
    by (auto simp: queryRound_def Let_def split: if_splits)
  with p have n: "newRequestErr = None"
    by (cases newRequestErr) (auto simp: Post_def)
  from post p n have c1: "0 < attempts c1 \<and> retries c1 = retries c" by blast
  from q p ne have "attemptsNow = attemptsSoFar + attempts c1 \<and> retries c' = retries c1
      \<and> (\<exists>errs. scanErrors (retries c1 \<le> attemptsNow) (grErrors gr) [] False = Inr (errs, True))"
    by (auto simp: queryRound_def Let_def split: sum.splits if_splits option.splits)
  with scan c1 have "attemptsSoFar < attemptsNow \<and> attemptsNow < retries c \<and> retries c' = retries c"
    by fastforce
  then show "((rt, srv, newRequestErr, Suc k, attemptsNow, c'), rt, srv, newRequestErr, k, attemptsSoFar, c)
      \<in> measure (\<lambda>(rt, srv, newRequestErr, k, attemptsSoFar, c). nat (retries c - attemptsSoFar))"
    by simp
qed

text \<open>\<open>func (s *GraphQLServiceOp) Query(q string, vars, resp interface{}) error\<close>\<close>

definition Query ::
  "runtime \<Rightarrow> (nat \<Rightarrow> int \<Rightarrow> outcome) \<Rightarrow> string option \<Rightarrow> Client
     \<Rightarrow> error option \<times> Client \<times> event list" where
  "Query rt srv newRequestErr c = Query_loop rt srv newRequestErr 0 0 c"


declare Query_loop.simps [simp del]

text \<open>The client after an iteration of the loop of \<open>Query\<close>.\<close>

definition afterRound :: "graphQLResponse \<Rightarrow> int \<Rightarrow> Client \<Rightarrow> Client" where
  "afterRound gr attemptsNow c1 =
     (case grExtensions gr of
        None \<Rightarrow> c1\<lparr>attempts := attemptsNow\<rparr>
      | Some cost \<Rightarrow>
          c1\<lparr>attempts := attemptsNow,
             RateLimits := (RateLimits c1)
               \<lparr>GraphQLCost := Some cost,
                RateLimitRetryAfterSeconds := RetryAfterSeconds cost\<rparr>\<rparr>)"

text \<open>The suggested wait of a response.\<close>

definition suggestedWait :: "graphQLResponse \<Rightarrow> float64" where
  "suggestedWait gr =
     (case grExtensions gr of None \<Rightarrow> Finite 0 | Some cost \<Rightarrow> RetryAfterSeconds cost)"

text \<open>GraphQL responses and servers on which examples are evaluated.\<close>

definition gqlResponse :: "graphQLResponse \<Rightarrow> Response" where
  "gqlResponse gr = (mkResponse 200 no_headers ''{}'' (Fields [] None))\<lparr>BodyGraphQL := gr\<rparr>"

definition throttledResponse :: "int \<Rightarrow> graphQLResponse" where
  "throttledResponse requested =
     \<lparr>grErrors = [\<lparr>gqlMessage = ''Throttled'',
                   gqlExtensions = Some \<lparr>Code = ''THROTTLED'', Documentation = []\<rparr>\<rparr>],
      grExtensions = Some \<lparr>RequestedQueryCost = requested, ActualQueryCost = None,
                           ThrottleStatus = \<lparr>MaximumAvailable = 1000, CurrentlyAvailable = 100,
                                             RestoreRate = 50\<rparr>\<rparr>\<rparr>"

definition srv_throttled_once :: "int \<Rightarrow> nat \<Rightarrow> int \<Rightarrow> outcome" where
  "srv_throttled_once requested k n =
     (if k = 0 then Responded (gqlResponse (throttledResponse requested))
      else Responded (gqlResponse \<lparr>grErrors = [], grExtensions = None\<rparr>))"

section \<open>Rendering of an error\<close>

lemma Join_eq_Nil_iff: "Join xs '', '' = [] \<longleftrightarrow> xs = [] \<or> xs = [[]]"
  by (induction xs "'', ''" rule: Join.induct) auto

lemma sort_eq_single_iff: "sort xs = [x] \<longleftrightarrow> xs = [x]"
proof
  assume h: "sort xs = [x]"
  have "length xs = 1" using h length_sort [of "\<lambda>x. x" xs] by simp
  then obtain y where y: "xs = [y]" by (cases xs) auto
  with h show "xs = [x]" by simp
qed simp

lemma sort_eq_Nil_iff: "sort xs = [] \<longleftrightarrow> xs = []"
  using length_sort [of "\<lambda>x. x" xs] by (metis length_0_conv sort_key_simps(1))

text \<open>
  C10, as stated, fails on the list holding only the empty string: the joined string is empty
  and the rendering falls through to \<open>"Unknown Error"\<close>.
\<close>

theorem Error_single_empty_counterexample:
  "Message \<lparr>Status = 500, Message = [], Errors = [[]]\<rparr> = []
   \<and> Errors \<lparr>Status = 500, Message = [], Errors = [[]]\<rparr> \<noteq> []
   \<and> Error \<lparr>Status = 500, Message = [], Errors = [[]]\<rparr> = ''Unknown Error''
   \<and> Error \<lparr>Status = 500, Message = [], Errors = [[]]\<rparr>
       \<noteq> Join (sort (Errors \<lparr>Status = 500, Message = [], Errors = [[]]\<rparr>)) '', ''"
  by (simp add: Error_def)

text \<open>
  C10 (amended): for a \<open>ResponseError\<close> with an empty \<open>Message\<close>, \<open>Error()\<close> is the
  sub-messages sorted lexicographically and joined by \<open>", "\<close>, unless that string is empty
  (no sub-message, or the empty string alone), where it is \<open>"Unknown Error"\<close>; so the
  rendering is the same for every permutation of the \<open>Errors\<close> list.
\<close>

theorem Error_sorted_join:
  assumes "Message e = []"
  shows "Error e = (if Errors e = [] \<or> Errors e = [[]] then ''Unknown Error''
                    else Join (sort (Errors e)) '', '')
         \<and> (\<forall>e'. Message e' = [] \<and> mset (Errors e') = mset (Errors e) \<longrightarrow> Error e' = Error e)"
proof (intro conjI allI impI)
  show "Error e = (if Errors e = [] \<or> Errors e = [[]] then ''Unknown Error''
                   else Join (sort (Errors e)) '', '')"
    using assms by (auto simp: Error_def Let_def Join_eq_Nil_iff sort_eq_single_iff sort_eq_Nil_iff)
next
  fix e' :: ResponseError
  assume h: "Message e' = [] \<and> mset (Errors e') = mset (Errors e)"
  then have "sort (Errors e') = sort (Errors e)"
    by (intro properties_for_sort) simp_all
  then show "Error e' = Error e"
    using assms h by (simp add: Error_def)
qed

theorem Error_sorted_join_witness:
  "Error \<lparr>Status = 422, Message = [], Errors = [''b: y'', ''a: x'']\<rparr> = ''a: x, b: y''
   \<and> Error \<lparr>Status = 422, Message = [], Errors = [''a: x'', ''b: y'']\<rparr>
       = Error \<lparr>Status = 422, Message = [], Errors = [''b: y'', ''a: x'']\<rparr>"
proof -
  have s: "sort [''b: y'', ''a: x''] = [''a: x'', ''b: y'']"
    by code_simp
  have m: "mset [''a: x'', ''b: y''] = mset [''b: y'', ''a: x'']"
    by (simp add: add.commute)
  show ?thesis
    using Error_sorted_join [of "\<lparr>Status = 422, Message = [], Errors = [''b: y'', ''a: x'']\<rparr>"] s m
    by (simp del: mset.simps)
qed

section \<open>Flattening of the errors field\<close>

lemma topicAndElem_nonempty: "topicAndElem rt k elem \<noteq> []" "[] \<noteq> topicAndElem rt k elem"
  by (simp_all add: topicAndElem_def)

lemma primary_append:
  "[] \<notin> set ps \<Longrightarrow> primary (primary m ps) qs = primary m (ps @ qs)"
  by (cases ps) (auto simp: primary_def)

lemma flattenElems_fields:
  "Status (flattenElems rt k elems re) = Status re"
  "Errors (flattenElems rt k elems re) = Errors re @ map (topicAndElem rt k) elems"
  "Message (flattenElems rt k elems re) = primary (Message re) (map (topicAndElem rt k) elems)"
proof (induction elems arbitrary: re)
  case Nil
  {
    case 1 show ?case by simp
  next
    case 2 show ?case by simp
  next
    case 3 show ?case by (simp add: primary_def)
  }
next
  case (Cons elem elems)
  {
    case 1 show ?case by (simp add: Cons.IH)
  next
    case 2 show ?case by (simp add: Cons.IH)
  next
    case 3 show ?case by (simp add: Cons.IH primary_def topicAndElem_nonempty)
  }
qed

lemma pairs_nonempty: "[] \<notin> set (pairs rt kxs)"
  by (auto simp: pairs_def topicAndElem_nonempty)

lemma pairs_Cons: "pairs rt ((k, xs) # kxs) = map (topicAndElem rt k) xs @ pairs rt kxs"
  by (simp add: pairs_def)

lemma flattenMap_arrays:
  "flattenMap rt (map (\<lambda>(k, xs). (k, JArray xs)) kxs) re =
     Inr \<lparr>Status = Status re, Message = primary (Message re) (pairs rt kxs),
          Errors = Errors re @ pairs rt kxs\<rparr>"
proof (induction kxs arbitrary: re)
  case Nil
  show ?case by (simp add: pairs_def primary_def)
next
  case (Cons kx kxs)
  obtain k xs where kx: "kx = (k, xs)" by (cases kx)
  have "[] \<notin> set (map (topicAndElem rt k) xs)"
    by (auto simp: topicAndElem_nonempty)
  then show ?case
    by (simp add: kx Cons.IH flattenElems_fields pairs_Cons primary_append)
qed

lemma CheckResponseError_wrap_embedded:
  "embedded (wrapSpecificError rt r re) =
     Some (if Status re = 429 then re
           else if Status re = 406 then re\<lparr>Message := StatusText_NotAcceptable\<rparr> else re)"
  by (simp add: wrapSpecificError_def)

text \<open>
  C6, as stated, fails at status 406: the classifier replaces the joined message by the
  status text.
\<close>

theorem check_array_406_counterexample:
  \<open>CheckResponseError rt0
     (mkResponse 406 no_headers ''{"errors":["a","b"]}''
        (Fields [] (Some (JArray [JString ''a'', JString ''b'']))))
   = Some (RespError \<lparr>Status = 406, Message = ''Not Acceptable'', Errors = [''a'', ''b'']\<rparr>)
   \<and> ''Not Acceptable'' \<noteq> Join [''a'', ''b''] '', ''\<close>
  by (simp add: CheckResponseError_def mkResponse_def wrapSpecificError_def StatusText_NotAcceptable_def)

text \<open>
  C6 (amended): for every non-2xx response whose body decodes to an object with an
  \<open>errors\<close> field holding an array of N elements, the classifier produces an error that is or
  embeds a \<open>ResponseError\<close> whose \<open>Errors\<close> list has exactly N entries, the printed elements
  in the order of the array, and whose \<open>Message\<close> is those entries joined by \<open>", "\<close>,
  except at status 406, where the \<open>Message\<close> is the status text \<open>"Not Acceptable"\<close>.
\<close>

theorem check_array:
  assumes "\<not> (200 \<le> StatusCode r \<and> StatusCode r < 300)"
    and "BodyError r = None"
    and "BodyBytes r \<noteq> []"
    and "BodyJSON r = Fields err (Some (JArray elems))"
  shows "\<exists>e re. CheckResponseError rt r = Some e \<and> embedded e = Some re
           \<and> Status re = StatusCode r
           \<and> Errors re = map (Sprint rt) elems
           \<and> length (Errors re) = length elems
           \<and> Message re = (if StatusCode r = 406 then ''Not Acceptable''
                            else Join (Errors re) '', '')"
  using assms
  by (simp add: CheckResponseError_def Let_def CheckResponseError_wrap_embedded
      StatusText_NotAcceptable_def)

theorem check_array_witness:
  \<open>\<exists>e re. CheckResponseError rt0
       (mkResponse 422 no_headers ''{"errors":["a","b"]}''
          (Fields [] (Some (JArray [JString ''a'', JString ''b''])))) = Some e
     \<and> embedded e = Some re
     \<and> Errors re = [''a'', ''b''] \<and> Message re = ''a, b''\<close>
  using check_array [of "mkResponse 422 no_headers ''{\"errors\":[\"a\",\"b\"]}''
          (Fields [] (Some (JArray [JString ''a'', JString ''b''])))" "[]"
          "[JString ''a'', JString ''b'']" rt0]
  by (auto simp: mkResponse_def)

text \<open>
  C7, as stated, fails at status 406: no message was set, and the primary message is the
  status text, not the first pair.
\<close>

theorem check_map_406_counterexample:
  \<open>CheckResponseError rt0
     (mkResponse 406 no_headers ''{"errors":{"title":["bad"]}}''
        (Fields [] (Some (JObject [(''title'', JArray [JString ''bad''])]))))
   = Some (RespError \<lparr>Status = 406, Message = ''Not Acceptable'', Errors = [''title: bad'']\<rparr>)
   \<and> ''Not Acceptable'' \<noteq> ''title: bad''\<close>
  by (simp add: CheckResponseError_def mkResponse_def wrapSpecificError_def StatusText_NotAcceptable_def
      topicAndElem_def)

text \<open>
  C7 (amended): for every non-2xx response whose body decodes to an object with an
  \<open>errors\<close> field holding an object that maps keys to arrays, the \<open>Errors\<close> list of the
  classifier's error is, key by key in the order in which the map is enumerated and element
  by element in the order of each array, the strings \<open>"key: element"\<close>, one for every
  element of every array; the \<open>Message\<close> is the one the body's \<open>error\<close> field set,
  otherwise the first of those strings, except at status 406, where it is the status text
  \<open>"Not Acceptable"\<close>.
\<close>

theorem check_map_of_arrays:
  assumes "\<not> (200 \<le> StatusCode r \<and> StatusCode r < 300)"
    and "BodyError r = None"
    and "BodyBytes r \<noteq> []"
    and "BodyJSON r = Fields err (Some (JObject (map (\<lambda>(k, xs). (k, JArray xs)) kxs)))"
  shows "\<exists>e re. CheckResponseError rt r = Some e \<and> embedded e = Some re
           \<and> Status re = StatusCode r
           \<and> Errors re = concat (map (\<lambda>(k, xs). map (\<lambda>elem. k @ '': '' @ Sprint rt elem) xs) kxs)
           \<and> length (Errors re) = sum_list (map (\<lambda>(k, xs). length xs) kxs)
           \<and> Message re = (if StatusCode r = 406 then ''Not Acceptable''
                            else if err \<noteq> [] then err
                            else case Errors re of [] \<Rightarrow> [] | p # ps \<Rightarrow> p)"
proof -
  have p: "pairs rt kxs = concat (map (\<lambda>(k, xs). map (\<lambda>elem. k @ '': '' @ Sprint rt elem) xs) kxs)"
    by (simp add: pairs_def topicAndElem_def [abs_def])
  have l: "length (pairs rt kxs) = sum_list (map (\<lambda>(k, xs). length xs) kxs)"
    by (induction kxs) (auto simp: pairs_Cons pairs_def)
  have "\<exists>e re. CheckResponseError rt r = Some e \<and> embedded e = Some re
           \<and> Status re = StatusCode r
           \<and> Errors re = pairs rt kxs
           \<and> length (Errors re) = sum_list (map (\<lambda>(k, xs). length xs) kxs)
           \<and> Message re = (if StatusCode r = 406 then ''Not Acceptable''
                            else if err \<noteq> [] then err
                            else case Errors re of [] \<Rightarrow> [] | p # ps \<Rightarrow> p)"
    using assms
    by (simp add: CheckResponseError_def Let_def flattenMap_arrays
        CheckResponseError_wrap_embedded StatusText_NotAcceptable_def primary_def l)
  then show ?thesis
    by (simp only: p)
qed

theorem check_map_of_arrays_witness:
  \<open>\<exists>e re. CheckResponseError rt0
       (mkResponse 422 no_headers ''{"errors":{"title":["bad","short"],"sku":["taken"]}}''
          (Fields [] (Some (JObject [(''title'', JArray [JString ''bad'', JString ''short'']),
                                     (''sku'', JArray [JString ''taken''])])))) = Some e
     \<and> embedded e = Some re
     \<and> Errors re = [''title: bad'', ''title: short'', ''sku: taken'']
     \<and> Message re = ''title: bad''\<close>
  using check_map_of_arrays [of "mkResponse 422 no_headers
          ''{\"errors\":{\"title\":[\"bad\",\"short\"],\"sku\":[\"taken\"]}}''
          (Fields [] (Some (JObject [(''title'', JArray [JString ''bad'', JString ''short'']),
                                     (''sku'', JArray [JString ''taken''])])))" "[]"
          "[(''title'', [JString ''bad'', JString ''short'']), (''sku'', [JString ''taken''])]" rt0]
  by (auto simp: mkResponse_def)

section \<open>Merging options into the query\<close>

lemma values_of_Add:
  "values_of (Add vs k v) k' = (if k' = k then values_of vs k @ [v] else values_of vs k')"
  by (induction vs k v rule: Add.induct) (auto simp: values_of_def)

lemma keys_Add: "set (map fst (Add vs k v)) = insert k (set (map fst vs))"
  by (induction vs k v rule: Add.induct) auto

lemma distinct_Add: "distinct (map fst vs) \<Longrightarrow> distinct (map fst (Add vs k v))"
  by (induction vs k v rule: Add.induct) (auto simp: keys_Add simp flip: set_map)

lemma values_of_addValues:
  "values_of (addValues vs k vals) k' = (if k' = k then values_of vs k @ vals else values_of vs k')"
  by (induction vs k vals rule: addValues.induct) (auto simp: values_of_Add)

lemma distinct_addValues: "distinct (map fst vs) \<Longrightarrow> distinct (map fst (addValues vs k vals))"
  by (induction vs k vals rule: addValues.induct) (auto simp: distinct_Add)

lemma values_of_notin: "k \<notin> fst ` set vs \<Longrightarrow> values_of vs k = []"
  by (simp add: values_of_def map_of_eq_None_iff [THEN iffD2])

lemma values_of_mergeQuery:
  "distinct (map fst uQuery) \<Longrightarrow>
   values_of (mergeQuery optionsQuery uQuery) k = values_of optionsQuery k @ values_of uQuery k"
proof (induction optionsQuery uQuery rule: mergeQuery.induct)
  case (1 optionsQuery)
  show ?case by (simp add: values_of_def)
next
  case (2 optionsQuery k' vals uQuery)
  then show ?case
    by (auto simp: values_of_addValues values_of_notin) (simp_all add: values_of_def)
qed

lemma distinct_mergeQuery:
  "distinct (map fst optionsQuery) \<Longrightarrow> distinct (map fst (mergeQuery optionsQuery uQuery))"
  by (induction optionsQuery uQuery rule: mergeQuery.induct) (auto simp: distinct_addValues)

lemma filter_key_concat:
  "distinct ks \<Longrightarrow>
   filter (\<lambda>p. fst p = k) (concat (map (\<lambda>k'. map (\<lambda>v. (k', v)) (f k')) ks)) =
     (if k \<in> set ks then map (\<lambda>v. (k, v)) (f k) else [])"
proof (induction ks)
  case Nil
  show ?case by simp
next
  case (Cons a ks)
  have "filter (\<lambda>p. fst p = k) (map (\<lambda>v. (a, v)) (f a)) = (if a = k then map (\<lambda>v. (k, v)) (f k) else [])"
    by (induction "f a") (auto simp: filter_map comp_def)
  with Cons show ?case by (auto simp: filter_map comp_def)
qed

lemma values_of_encoded_pairs:
  assumes "distinct (map fst vs)"
  shows "map snd (filter (\<lambda>p. fst p = k) (encoded_pairs vs)) = values_of vs k"
proof -
  have "distinct (sort (map fst vs))" using assms by simp
  then show ?thesis
    unfolding encoded_pairs_def
    by (subst filter_key_concat) (auto simp: comp_def values_of_notin)
qed

lemma sorted_map_const: "sorted (map (\<lambda>x. a) xs)" for a :: string
  by (induction xs) auto

lemma sorted_encoded_pairs: "sorted (map fst (encoded_pairs vs))"
proof -
  have "sorted (map fst (concat (map (\<lambda>k. map (\<lambda>v. (k, v)) (f k)) ks)))" if "sorted ks" for ks :: "string list" and f :: "string \<Rightarrow> string list"
    using that by (induction ks) (auto simp: sorted_append comp_def sorted_map_const)
  then show ?thesis by (simp add: encoded_pairs_def)
qed

text \<open>
  C8 (amended): for every request built with a non-nil options value and a path that
  carries literal query parameters, the query of the built URL holds, for every key, the
  values the options give it followed by the values the path gives it, so that neither set
  overwrites the other; the parameters are written sorted by key.
\<close>

theorem NewRequest_query_merge:
  assumes "distinct (map fst optionsQuery)" and "distinct (map fst uQuery)"
  shows "\<exists>q. NewRequest_RawQuery esc rawQuery uQuery (Some (Inr optionsQuery))
               = Inr (Join (map (\<lambda>(k, v). esc k @ ''='' @ esc v) q) ''&'')
           \<and> sorted (map fst q)
           \<and> (\<forall>k. map snd (filter (\<lambda>p. fst p = k) q)
                    = values_of optionsQuery k @ values_of uQuery k)"
proof (intro exI conjI allI)
  show "NewRequest_RawQuery esc rawQuery uQuery (Some (Inr optionsQuery))
          = Inr (Join (map (\<lambda>(k, v). esc k @ ''='' @ esc v)
                   (encoded_pairs (mergeQuery optionsQuery uQuery))) ''&'')"
    by (simp add: NewRequest_RawQuery_def Encode_def)
  show "sorted (map fst (encoded_pairs (mergeQuery optionsQuery uQuery)))"
    by (rule sorted_encoded_pairs)
  show "map snd (filter (\<lambda>p. fst p = k) (encoded_pairs (mergeQuery optionsQuery uQuery)))
          = values_of optionsQuery k @ values_of uQuery k" for k
    using assms by (simp add: values_of_encoded_pairs distinct_mergeQuery values_of_mergeQuery)
qed

text \<open>
  C8, as stated, fails on the order: an options parameter whose key sorts first is written
  before the literal parameter of the path, and under a shared key the value of the options
  comes first.
\<close>

theorem NewRequest_query_order_counterexample:
  "NewRequest_RawQuery (\<lambda>s. s) ''page=2'' [(''page'', [''2''])] (Some (Inr [(''limit'', [''10''])]))
     = Inr ''limit=10&page=2''
   \<and> NewRequest_RawQuery (\<lambda>s. s) ''limit=5'' [(''limit'', [''5''])] (Some (Inr [(''limit'', [''10''])]))
     = Inr ''limit=10&limit=5''"
  by (simp add: NewRequest_RawQuery_def Encode_def encoded_pairs_def values_of_def)

theorem NewRequest_query_merge_witness:
  "\<exists>q. NewRequest_RawQuery (\<lambda>s. s) ''page=2&limit=5'' [(''page'', [''2'']), (''limit'', [''5''])]
          (Some (Inr [(''limit'', [''10''])]))
        = Inr (Join (map (\<lambda>(k, v). k @ ''='' @ v) q) ''&'')
      \<and> sorted (map fst q)
      \<and> map snd (filter (\<lambda>p. fst p = ''limit'') q) = [''10'', ''5'']
      \<and> map snd (filter (\<lambda>p. fst p = ''page'') q) = [''2'']"
proof -
  obtain q where r: "NewRequest_RawQuery (\<lambda>s. s) ''page=2&limit=5''
          [(''page'', [''2'']), (''limit'', [''5''])] (Some (Inr [(''limit'', [''10''])]))
        = Inr (Join (map (\<lambda>(k, v). k @ ''='' @ v) q) ''&'')"
    and s: "sorted (map fst q)"
    and v: "\<And>k. map snd (filter (\<lambda>p. fst p = k) q)
          = values_of [(''limit'', [''10''])] k
            @ values_of [(''page'', [''2'']), (''limit'', [''5''])] k"
    using NewRequest_query_merge [of "[(''limit'', [''10''])]"
        "[(''page'', [''2'']), (''limit'', [''5''])]" "\<lambda>s. s" "''page=2&limit=5''"]
    by auto
  have a: "map snd (filter (\<lambda>p. fst p = ''limit'') q) = [''10'', ''5'']"
    by (simp add: v values_of_def)
  have b: "map snd (filter (\<lambda>p. fst p = ''page'') q) = [''2'']"
    by (simp add: v values_of_def)
  show ?thesis
    by (rule exI [of _ q]) (intro conjI r s a b)
qed

section \<open>Pagination from the Link header\<close>

lemma extractLink_Inr:
  "extractLink lib link = Inr (rel, opts) \<Longrightarrow>
     length (FindStringSubmatch lib link) = 3 \<and> rel = FindStringSubmatch lib link ! 2"
  by (auto simp: extractLink_def Let_def split: if_splits option.splits sum.splits prod.splits)

lemma extractLinks_next:
  "extractLinks lib links p0 = Inr p \<Longrightarrow>
     (NextPageOptions p \<noteq> None \<longleftrightarrow>
        NextPageOptions p0 \<noteq> None
        \<or> list_ex (\<lambda>link. length (FindStringSubmatch lib link) = 3
                          \<and> FindStringSubmatch lib link ! 2 = ''next'') links)"
proof (induction links arbitrary: p0)
  case Nil
  then show ?case by simp
next
  case (Cons link links)
  from Cons.prems obtain rel opts where l: "extractLink lib link = Inr (rel, opts)"
    by (auto split: sum.splits)
  note m = extractLink_Inr [OF l]
  show ?case
  proof (cases "rel = ''next''")
    case True
    with Cons.prems l have "extractLinks lib links (p0\<lparr>NextPageOptions := Some opts\<rparr>) = Inr p"
      by simp
    from Cons.IH [OF this] show ?thesis using m True by simp
  next
    case False
    with Cons.prems l have "extractLinks lib links (p0\<lparr>PreviousPageOptions := Some opts\<rparr>) = Inr p"
      by simp
    from Cons.IH [OF this] show ?thesis using m False by simp
  qed
qed

lemma extractLink_Inr_iff:
  "(\<exists>r. extractLink lib link = Inr r) \<longleftrightarrow> entry_extracts lib link"
  by (auto simp: extractLink_def entry_extracts_def Let_def
      split: if_splits option.splits sum.splits prod.splits)

lemma extractLinks_Inr_iff:
  "(\<exists>p. extractLinks lib links p0 = Inr p) \<longleftrightarrow> (\<forall>link\<in>set links. entry_extracts lib link)"
proof (induction links arbitrary: p0)
  case Nil
  show ?case by simp
next
  case (Cons link links)
  show ?case
  proof (cases "extractLink lib link")
    case (Inl e)
    then have "\<not> entry_extracts lib link"
      using extractLink_Inr_iff [of lib link] by simp
    with Inl show ?thesis by simp
  next
    case (Inr r)
    then have "entry_extracts lib link"
      using extractLink_Inr_iff [of lib link] by auto
    with Inr Cons.IH show ?thesis
      by (cases r) simp
  qed
qed

lemma extractLinks_Inl:
  "extractLinks lib links p0 = Inl e \<Longrightarrow> \<exists>link\<in>set links. extractLink lib link = Inl e"
proof (induction links arbitrary: p0)
  case Nil
  then show ?case by simp
next
  case (Cons link links)
  then show ?case
    by (cases "extractLink lib link") (auto split: prod.splits if_splits)
qed

text \<open>
  C4, as stated, fails for a header whose \<open>rel="next"\<close> entry does not extract: the
  relation is present, and the extractor returns an error and no pagination value.
\<close>

theorem extractPagination_next_error_counterexample:
  \<open>has_next_rel lib0 ''<http://valid.url>; rel="next"''
   \<and> extractPagination lib0 ''<http://valid.url>; rel="next"''
     = Inl (decodingError ''page_info is missing'')\<close>
  by code_simp

text \<open>
  C4 (amended): an empty Link header yields a pagination value with both cursors absent
  and no error. A non-empty header yields a pagination value exactly when every one of its
  entries extracts, and an error of one of its entries otherwise; and for every header that
  yields a pagination value, the presence of a \<open>rel="next"\<close> relation in the header is
  necessary and sufficient for its \<open>NextPageOptions\<close> to be present.
\<close>

theorem extractPagination_next:
  "extractPagination lib [] = Inr \<lparr>NextPageOptions = None, PreviousPageOptions = None\<rparr>
   \<and> ((\<exists>p. extractPagination lib linkHeader = Inr p) \<longleftrightarrow>
        linkHeader = [] \<or> (\<forall>link\<in>set (Split linkHeader CHR '',''). entry_extracts lib link))
   \<and> (\<forall>p. extractPagination lib linkHeader = Inr p \<longrightarrow>
          (NextPageOptions p \<noteq> None \<longleftrightarrow> has_next_rel lib linkHeader))
   \<and> (\<forall>e. extractPagination lib linkHeader = Inl e \<longrightarrow>
          linkHeader \<noteq> []
          \<and> (\<exists>link\<in>set (Split linkHeader CHR '',''). extractLink lib link = Inl e))"
proof (intro conjI allI impI)
  show "extractPagination lib [] = Inr \<lparr>NextPageOptions = None, PreviousPageOptions = None\<rparr>"
    by (simp add: extractPagination_def)
next
  show "(\<exists>p. extractPagination lib linkHeader = Inr p) \<longleftrightarrow>
        linkHeader = [] \<or> (\<forall>link\<in>set (Split linkHeader CHR '',''). entry_extracts lib link)"
    using extractLinks_Inr_iff [of lib "Split linkHeader CHR '',''"
        "\<lparr>NextPageOptions = None, PreviousPageOptions = None\<rparr>"]
    by (simp add: extractPagination_def)
next
  fix p
  assume h: "extractPagination lib linkHeader = Inr p"
  show "NextPageOptions p \<noteq> None \<longleftrightarrow> has_next_rel lib linkHeader"
  proof (cases "linkHeader = []")
    case True
    with h show ?thesis by (auto simp: extractPagination_def has_next_rel_def)
  next
    case False
    with h have "extractLinks lib (Split linkHeader CHR '','')
                   \<lparr>NextPageOptions = None, PreviousPageOptions = None\<rparr> = Inr p"
      by (simp add: extractPagination_def)
    from extractLinks_next [OF this] show ?thesis
      using False by (simp add: has_next_rel_def)
  qed
next
  fix e
  assume "extractPagination lib linkHeader = Inl e"
  then show "linkHeader \<noteq> []"
    by (auto simp: extractPagination_def)
next
  fix e
  assume h: "extractPagination lib linkHeader = Inl e"
  then have "extractLinks lib (Split linkHeader CHR '','')
               \<lparr>NextPageOptions = None, PreviousPageOptions = None\<rparr> = Inl e"
    by (auto simp: extractPagination_def split: if_splits)
  then show "\<exists>link\<in>set (Split linkHeader CHR '',''). extractLink lib link = Inl e"
    by (rule extractLinks_Inl)
qed

theorem extractPagination_next_witness:
  \<open>entry_extracts lib0 ''<http://valid.url?page_info=foo&limit=2>; rel="next"''
   \<and> extractPagination lib0 ''<http://valid.url?page_info=foo&limit=2>; rel="next"''
     = Inr \<lparr>NextPageOptions = Some \<lparr>PageInfo = ''foo'', Limit = 2\<rparr>, PreviousPageOptions = None\<rparr>
   \<and> has_next_rel lib0 ''<http://valid.url?page_info=foo&limit=2>; rel="next"''
   \<and> extractPagination lib0 ''<http://valid.url?page_info=bar>; rel="previous"''
     = Inr \<lparr>NextPageOptions = None, PreviousPageOptions = Some \<lparr>PageInfo = ''bar'', Limit = 0\<rparr>\<rparr>
   \<and> \<not> has_next_rel lib0 ''<http://valid.url?page_info=bar>; rel="previous"''
   \<and> \<not> entry_extracts lib0 ''<http://valid.url>; rel="next"''\<close>
proof -
  have n: \<open>extractPagination lib0 ''<http://valid.url?page_info=foo&limit=2>; rel="next"''
      = Inr \<lparr>NextPageOptions = Some \<lparr>PageInfo = ''foo'', Limit = 2\<rparr>,
             PreviousPageOptions = None\<rparr>\<close>
    by code_simp
  have p: \<open>extractPagination lib0 ''<http://valid.url?page_info=bar>; rel="previous"''
      = Inr \<lparr>NextPageOptions = None,
             PreviousPageOptions = Some \<lparr>PageInfo = ''bar'', Limit = 0\<rparr>\<rparr>\<close>
    by code_simp
  have e: \<open>extractPagination lib0 ''<http://valid.url>; rel="next"''
      = Inl (decodingError ''page_info is missing'')\<close>
    by code_simp
  have s1: \<open>Split ''<http://valid.url?page_info=foo&limit=2>; rel="next"'' CHR '',''
      = [''<http://valid.url?page_info=foo&limit=2>; rel="next"'']\<close>
    by code_simp
  have s4: \<open>Split ''<http://valid.url>; rel="next"'' CHR '',''
      = [''<http://valid.url>; rel="next"'']\<close>
    by code_simp
  have 1: \<open>entry_extracts lib0 ''<http://valid.url?page_info=foo&limit=2>; rel="next"''\<close>
    using extractPagination_next
        [of lib0 \<open>''<http://valid.url?page_info=foo&limit=2>; rel="next"''\<close>]
    by (simp add: n s1)
  have 2: \<open>has_next_rel lib0 ''<http://valid.url?page_info=foo&limit=2>; rel="next"''\<close>
    using extractPagination_next
        [of lib0 \<open>''<http://valid.url?page_info=foo&limit=2>; rel="next"''\<close>]
    by (simp add: n)
  have 3: \<open>\<not> has_next_rel lib0 ''<http://valid.url?page_info=bar>; rel="previous"''\<close>
    using extractPagination_next [of lib0 \<open>''<http://valid.url?page_info=bar>; rel="previous"''\<close>]
    by (simp add: p)
  have 4: \<open>\<not> entry_extracts lib0 ''<http://valid.url>; rel="next"''\<close>
    using extractPagination_next [of lib0 \<open>''<http://valid.url>; rel="next"''\<close>]
    by (simp add: e s4)
  from 1 2 3 4 n p show ?thesis
    by blast
qed

lemma extractLinks_first_failure:
  "\<forall>l\<in>set pre. \<exists>r. extractLink lib l = Inr r \<Longrightarrow> extractLink lib link = Inl e \<Longrightarrow>
     extractLinks lib (pre @ link # post) p = Inl e"
proof (induction pre arbitrary: p)
  case Nil
  then show ?case by simp
next
  case (Cons l pre)
  then obtain rel opts where "extractLink lib l = Inr (rel, opts)"
    by fastforce
  with Cons show ?case by simp
qed

lemma extractLink_no_match:
  "length (FindStringSubmatch lib link) \<noteq> 3 \<Longrightarrow>
     extractLink lib link = Inl (decodingError ''could not extract pagination link header'')"
  by (simp add: extractLink_def)

lemma extractLink_no_page_info:
  "length (FindStringSubmatch lib link) = 3 \<Longrightarrow>
   url_Parse lib (FindStringSubmatch lib link ! 1) = Some rawQuery \<Longrightarrow>
   url_ParseQuery lib rawQuery = Inr params \<Longrightarrow> Get params ''page_info'' = [] \<Longrightarrow>
     extractLink lib link = Inl (decodingError ''page_info is missing'')"
  by (simp add: extractLink_def)

lemma Atoi_error: "snd (Atoi s) \<noteq> None \<Longrightarrow> \<exists>n cause. Atoi s = (n, Some (NumError ''Atoi'' s cause))"
  by (auto simp: Atoi_def Let_def split: if_splits)

lemma extractLink_bad_limit:
  assumes "length (FindStringSubmatch lib link) = 3"
    and "url_Parse lib (FindStringSubmatch lib link ! 1) = Some rawQuery"
    and "url_ParseQuery lib rawQuery = Inr params"
    and "Get params ''page_info'' \<noteq> []"
    and "Get params ''limit'' \<noteq> []"
    and "snd (Atoi (Get params ''limit'')) \<noteq> None"
  shows "\<exists>cause. extractLink lib link = Inl (NumError ''Atoi'' (Get params ''limit'') cause)"
proof -
  from Atoi_error [OF assms(6)] obtain n cause
    where "Atoi (Get params ''limit'') = (n, Some (NumError ''Atoi'' (Get params ''limit'') cause))"
    by blast
  with assms(1-5) show ?thesis
    by (simp add: extractLink_def Let_def)
qed

text \<open>
  C5 (amended): a non-empty Link header is split on \<open>,\<close> and the entries are processed
  in order; at the first entry that fails, extraction fails with that entry's error. An entry
  that does not match the two-capture pattern fails with the decoding error
  \<open>"could not extract pagination link header"\<close>; a matched entry whose URL and query parse
  and whose query has no \<open>page_info\<close> fails with the decoding error
  \<open>"page_info is missing"\<close>; and with a \<open>page_info\<close>, a non-empty \<open>limit\<close> that is not an
  integer fails with the numeric-parse error of \<open>strconv.Atoi\<close>, whereas an entry whose
  \<open>limit\<close> is empty or absent extracts with the limit 0, and one whose \<open>limit\<close> is an
  integer extracts with that limit.
\<close>

theorem extractPagination_errors:
  assumes "linkHeader \<noteq> []"
    and "Split linkHeader CHR '','' = pre @ link # post"
    and "\<forall>l\<in>set pre. \<exists>r. extractLink lib l = Inr r"
  shows "(length (FindStringSubmatch lib link) \<noteq> 3 \<longrightarrow>
            extractPagination lib linkHeader
              = Inl (decodingError ''could not extract pagination link header''))
       \<and> (\<forall>rawQuery params.
             length (FindStringSubmatch lib link) = 3
             \<and> url_Parse lib (FindStringSubmatch lib link ! 1) = Some rawQuery
             \<and> url_ParseQuery lib rawQuery = Inr params \<longrightarrow>
               (Get params ''page_info'' = [] \<longrightarrow>
                  extractPagination lib linkHeader = Inl (decodingError ''page_info is missing''))
             \<and> (Get params ''page_info'' \<noteq> [] \<and> Get params ''limit'' \<noteq> []
                  \<and> snd (Atoi (Get params ''limit'')) \<noteq> None \<longrightarrow>
                  (\<exists>cause. extractPagination lib linkHeader
                     = Inl (NumError ''Atoi'' (Get params ''limit'') cause)))
             \<and> (Get params ''page_info'' \<noteq> [] \<and> Get params ''limit'' = [] \<longrightarrow>
                  extractLink lib link
                    = Inr (FindStringSubmatch lib link ! 2,
                           \<lparr>PageInfo = Get params ''page_info'', Limit = 0\<rparr>))
             \<and> (Get params ''page_info'' \<noteq> [] \<and> Get params ''limit'' \<noteq> []
                  \<and> snd (Atoi (Get params ''limit'')) = None \<longrightarrow>
                  extractLink lib link
                    = Inr (FindStringSubmatch lib link ! 2,
                           \<lparr>PageInfo = Get params ''page_info'',
                            Limit = fst (Atoi (Get params ''limit''))\<rparr>)))"
proof -
  have first: "extractPagination lib linkHeader = Inl e" if "extractLink lib link = Inl e" for e
    using assms that by (simp add: extractPagination_def extractLinks_first_failure)
  show ?thesis
  proof (intro conjI allI impI)
    assume "length (FindStringSubmatch lib link) \<noteq> 3"
    then show "extractPagination lib linkHeader
                 = Inl (decodingError ''could not extract pagination link header'')"
      by (intro first extractLink_no_match)
  next
    fix rawQuery params
    assume m: "length (FindStringSubmatch lib link) = 3
             \<and> url_Parse lib (FindStringSubmatch lib link ! 1) = Some rawQuery
             \<and> url_ParseQuery lib rawQuery = Inr params"
      and "Get params ''page_info'' = []"
    then show "extractPagination lib linkHeader = Inl (decodingError ''page_info is missing'')"
      by (intro first extractLink_no_page_info [of lib link rawQuery params]) simp_all
  next
    fix rawQuery params
    assume m: "length (FindStringSubmatch lib link) = 3
             \<and> url_Parse lib (FindStringSubmatch lib link ! 1) = Some rawQuery
             \<and> url_ParseQuery lib rawQuery = Inr params"
      and l: "Get params ''page_info'' \<noteq> [] \<and> Get params ''limit'' \<noteq> []
                  \<and> snd (Atoi (Get params ''limit'')) \<noteq> None"
    from extractLink_bad_limit [of lib link rawQuery params] m l
    obtain cause where "extractLink lib link = Inl (NumError ''Atoi'' (Get params ''limit'') cause)"
      by blast
    from first [OF this]
    show "\<exists>cause. extractPagination lib linkHeader
                     = Inl (NumError ''Atoi'' (Get params ''limit'') cause)"
      by blast
  next
    fix rawQuery params
    assume "length (FindStringSubmatch lib link) = 3
             \<and> url_Parse lib (FindStringSubmatch lib link ! 1) = Some rawQuery
             \<and> url_ParseQuery lib rawQuery = Inr params"
      and "Get params ''page_info'' \<noteq> [] \<and> Get params ''limit'' = []"
    then show "extractLink lib link
                    = Inr (FindStringSubmatch lib link ! 2,
                           \<lparr>PageInfo = Get params ''page_info'', Limit = 0\<rparr>)"
      by (simp add: extractLink_def)
  next
    fix rawQuery params
    assume "length (FindStringSubmatch lib link) = 3
             \<and> url_Parse lib (FindStringSubmatch lib link ! 1) = Some rawQuery
             \<and> url_ParseQuery lib rawQuery = Inr params"
      and "Get params ''page_info'' \<noteq> [] \<and> Get params ''limit'' \<noteq> []
                  \<and> snd (Atoi (Get params ''limit'')) = None"
    then show "extractLink lib link
                    = Inr (FindStringSubmatch lib link ! 2,
                           \<lparr>PageInfo = Get params ''page_info'',
                            Limit = fst (Atoi (Get params ''limit''))\<rparr>)"
      by (cases "Atoi (Get params ''limit'')") (simp add: extractLink_def Let_def)
  qed
qed

text \<open>
  C5, as stated, fails for a \<open>limit\<close> parameter with an empty value: the empty string is
  not an integer, and the extraction succeeds with the limit 0.
\<close>

theorem extractPagination_empty_limit_counterexample:
  \<open>extractPagination lib0 ''<http://valid.url?page_info=foo&limit=>; rel="next"''
     = Inr \<lparr>NextPageOptions = Some \<lparr>PageInfo = ''foo'', Limit = 0\<rparr>, PreviousPageOptions = None\<rparr>
   \<and> url_ParseQuery0 ''page_info=foo&limit='' = Inr [(''page_info'', [''foo'']), (''limit'', [[]])]
   \<and> Atoi [] = (0, Some (NumError ''Atoi'' [] ''invalid syntax''))\<close>
  by code_simp


theorem extractPagination_errors_witness:
  \<open>extractPagination lib0 ''<http://valid.url?page_info=foo>; rel="next",invalid link''
     = Inl (decodingError ''could not extract pagination link header'')
   \<and> extractPagination lib0 ''<http://valid.url>; rel="next"''
     = Inl (decodingError ''page_info is missing'')
   \<and> (\<exists>cause. extractPagination lib0 ''<http://valid.url?page_info=foo&limit=invalid>; rel="next"''
     = Inl (NumError ''Atoi'' ''invalid'' cause))
   \<and> extractLink lib0 ''<http://valid.url?page_info=foo&limit=>; rel="next"''
     = Inr (''next'', \<lparr>PageInfo = ''foo'', Limit = 0\<rparr>)
   \<and> extractLink lib0 ''<http://valid.url?page_info=foo&limit=2>; rel="next"''
     = Inr (''next'', \<lparr>PageInfo = ''foo'', Limit = 2\<rparr>)\<close>
proof -
  have s1: \<open>Split ''<http://valid.url?page_info=foo>; rel="next",invalid link'' CHR '',''
      = [''<http://valid.url?page_info=foo>; rel="next"''] @ ''invalid link'' # []\<close>
    by code_simp
  have p1: \<open>\<forall>l\<in>set [''<http://valid.url?page_info=foo>; rel="next"''].
      \<exists>r. extractLink lib0 l = Inr r\<close>
  proof -
    have \<open>extractLink lib0 ''<http://valid.url?page_info=foo>; rel="next"''
        = Inr (''next'', \<lparr>PageInfo = ''foo'', Limit = 0\<rparr>)\<close>
      by code_simp
    then show ?thesis by simp
  qed
  have m1: "length (FindStringSubmatch lib0 ''invalid link'') \<noteq> 3"
    by code_simp
  have 1: \<open>extractPagination lib0 ''<http://valid.url?page_info=foo>; rel="next",invalid link''
     = Inl (decodingError ''could not extract pagination link header'')\<close>
    using extractPagination_errors [OF _ s1 p1] m1 by simp
  have s2: \<open>Split ''<http://valid.url>; rel="next"'' CHR '',''
      = [] @ ''<http://valid.url>; rel="next"'' # []\<close>
    by code_simp
  have m2: \<open>length (FindStringSubmatch lib0 ''<http://valid.url>; rel="next"'') = 3
      \<and> url_Parse lib0 (FindStringSubmatch lib0 ''<http://valid.url>; rel="next"'' ! 1) = Some []
      \<and> url_ParseQuery lib0 [] = Inr []\<close>
    by code_simp
  have g2: "Get [] ''page_info'' = []"
    by code_simp
  have 2: \<open>extractPagination lib0 ''<http://valid.url>; rel="next"''
     = Inl (decodingError ''page_info is missing'')\<close>
    using extractPagination_errors [OF _ s2, of lib0] m2 g2 by simp
  have s3: \<open>Split ''<http://valid.url?page_info=foo&limit=invalid>; rel="next"'' CHR '',''
      = [] @ ''<http://valid.url?page_info=foo&limit=invalid>; rel="next"'' # []\<close>
    by code_simp
  have m3: \<open>length (FindStringSubmatch lib0
                ''<http://valid.url?page_info=foo&limit=invalid>; rel="next"'') = 3
      \<and> url_Parse lib0 (FindStringSubmatch lib0
                ''<http://valid.url?page_info=foo&limit=invalid>; rel="next"'' ! 1)
          = Some ''page_info=foo&limit=invalid''
      \<and> url_ParseQuery lib0 ''page_info=foo&limit=invalid''
          = Inr [(''page_info'', [''foo'']), (''limit'', [''invalid''])]\<close>
    by code_simp
  have g3: "Get [(''page_info'', [''foo'']), (''limit'', [''invalid''])] ''page_info'' = ''foo''
      \<and> Get [(''page_info'', [''foo'']), (''limit'', [''invalid''])] ''limit'' = ''invalid''
      \<and> snd (Atoi ''invalid'') \<noteq> None"
    by code_simp
  have 3: \<open>\<exists>cause. extractPagination lib0 ''<http://valid.url?page_info=foo&limit=invalid>; rel="next"''
     = Inl (NumError ''Atoi'' ''invalid'' cause)\<close>
    using extractPagination_errors [OF _ s3, of lib0] m3 g3 by auto
  have s4: \<open>Split ''<http://valid.url?page_info=foo&limit=>; rel="next"'' CHR '',''
      = [] @ ''<http://valid.url?page_info=foo&limit=>; rel="next"'' # []\<close>
    by code_simp
  have m4: \<open>length (FindStringSubmatch lib0
                ''<http://valid.url?page_info=foo&limit=>; rel="next"'') = 3
      \<and> url_Parse lib0 (FindStringSubmatch lib0
                ''<http://valid.url?page_info=foo&limit=>; rel="next"'' ! 1)
          = Some ''page_info=foo&limit=''
      \<and> url_ParseQuery lib0 ''page_info=foo&limit=''
          = Inr [(''page_info'', [''foo'']), (''limit'', [[]])]\<close>
    by code_simp
  have g4: "Get [(''page_info'', [''foo'']), (''limit'', [[]])] ''page_info'' = ''foo''
      \<and> Get [(''page_info'', [''foo'']), (''limit'', [[]])] ''limit'' = []"
    by code_simp
  have f4: \<open>FindStringSubmatch lib0 ''<http://valid.url?page_info=foo&limit=>; rel="next"'' ! 2
      = ''next''\<close>
    by code_simp
  have 4: \<open>extractLink lib0 ''<http://valid.url?page_info=foo&limit=>; rel="next"''
     = Inr (''next'', \<lparr>PageInfo = ''foo'', Limit = 0\<rparr>)\<close>
    using extractPagination_errors [OF _ s4, of lib0] m4 g4 f4 by auto
  have s5: \<open>Split ''<http://valid.url?page_info=foo&limit=2>; rel="next"'' CHR '',''
      = [] @ ''<http://valid.url?page_info=foo&limit=2>; rel="next"'' # []\<close>
    by code_simp
  have m5: \<open>length (FindStringSubmatch lib0
                ''<http://valid.url?page_info=foo&limit=2>; rel="next"'') = 3
      \<and> url_Parse lib0 (FindStringSubmatch lib0
                ''<http://valid.url?page_info=foo&limit=2>; rel="next"'' ! 1)
          = Some ''page_info=foo&limit=2''
      \<and> url_ParseQuery lib0 ''page_info=foo&limit=2''
          = Inr [(''page_info'', [''foo'']), (''limit'', [''2''])]\<close>
    by code_simp
  have g5: "Get [(''page_info'', [''foo'']), (''limit'', [''2''])] ''page_info'' = ''foo''
      \<and> Get [(''page_info'', [''foo'']), (''limit'', [''2''])] ''limit'' = ''2''
      \<and> Atoi ''2'' = (2, None)"
    by code_simp
  have f5: \<open>FindStringSubmatch lib0 ''<http://valid.url?page_info=foo&limit=2>; rel="next"'' ! 2
      = ''next''\<close>
    by code_simp
  have 5: \<open>extractLink lib0 ''<http://valid.url?page_info=foo&limit=2>; rel="next"''
     = Inr (''next'', \<lparr>PageInfo = ''foo'', Limit = 2\<rparr>)\<close>
    using extractPagination_errors [OF _ s5, of lib0] m5 g5 f5 by auto
  from 1 2 3 4 5 show ?thesis by blast
qed

section \<open>The retry loop and the rate-limit state\<close>

lemma attempt_Again: "attempt rt out budget = Again evs \<Longrightarrow> 1 < budget"
  by (auto simp: attempt_def split: outcome.splits option.splits error.splits if_splits)

lemma retryLoop_client:
  "retryLoop rt srv budget c = (r, c', tr) \<Longrightarrow>
     RateLimits c' = RateLimits c \<and> retries c' = retries c \<and> apiVersion c' = apiVersion c
     \<and> attempts c < attempts c'"
proof (induction rt srv budget c arbitrary: r c' tr rule: retryLoop.induct)
  case (1 rt srv budget c)
  show ?case
  proof (cases "attempt rt (srv (attempts c + 1)) budget")
    case (Done x)
    with "1.prems" show ?thesis
      by (auto simp: retryLoop.simps [of rt srv budget c])
  next
    case (Again evs)
    obtain r2 c2 tr2 where
      rec: "retryLoop rt srv (budget - 1) (c\<lparr>attempts := attempts c + 1\<rparr>) = (r2, c2, tr2)"
      by (cases "retryLoop rt srv (budget - 1) (c\<lparr>attempts := attempts c + 1\<rparr>)") auto
    from "1.IH" [OF refl _ rec] Again
    have "RateLimits c2 = RateLimits c \<and> retries c2 = retries c \<and> apiVersion c2 = apiVersion c
          \<and> attempts c + 1 < attempts c2"
      by simp
    moreover from "1.prems" Again rec have "c' = c2"
      by (simp add: retryLoop.simps [of rt srv budget c])
    ultimately show ?thesis by simp
  qed
qed

lemma retryLoop_last:
  "retryLoop rt srv budget c = (r, c', tr) \<Longrightarrow>
     (case r of
        Inr resp \<Rightarrow> srv (attempts c') = Responded resp \<and> CheckResponseError rt resp = None
      | Inl e \<Rightarrow> (\<exists>msg. srv (attempts c') = TransportError msg \<and> e = OtherError msg)
                \<or> (\<exists>resp. srv (attempts c') = Responded resp
                      \<and> CheckResponseError rt resp = Some e))"
proof (induction rt srv budget c arbitrary: r c' tr rule: retryLoop.induct)
  case (1 rt srv budget c)
  show ?case
  proof (cases "attempt rt (srv (attempts c + 1)) budget")
    case (Done x)
    with "1.prems" have r: "r = x" and c': "c' = c\<lparr>attempts := attempts c + 1\<rparr>"
      by (auto simp: retryLoop.simps [of rt srv budget c])
    from Done show ?thesis
      unfolding r c'
      by (auto simp: attempt_def split: outcome.splits option.splits error.splits if_splits)
  next
    case (Again evs)
    obtain r2 c2 tr2 where
      rec: "retryLoop rt srv (budget - 1) (c\<lparr>attempts := attempts c + 1\<rparr>) = (r2, c2, tr2)"
      by (cases "retryLoop rt srv (budget - 1) (c\<lparr>attempts := attempts c + 1\<rparr>)") auto
    from "1.prems" Again rec have e: "c' = c2" "r = r2"
      by (simp_all add: retryLoop.simps [of rt srv budget c])
    from "1.IH" [OF refl _ rec] Again show ?thesis
      unfolding e by simp
  qed
qed


lemma flattenMap_result:
  "flattenMap rt kvs re = Inl e \<Longrightarrow> \<exists>p. e = Panic p"
  "flattenMap rt kvs re = Inr re' \<Longrightarrow> Status re' = Status re"
proof (induction rt kvs re rule: flattenMap.induct)
  case (1 rt re)
  { case 1 then show ?case by simp
  next
    case 2 then show ?case by simp }
next
  case (2 rt k v kvs re)
  { case 1
    with "2.IH" show ?case by (cases v) (auto simp: flattenElems_fields)
  next
    case 2
    with "2.IH" show ?case by (cases v) (auto simp: flattenElems_fields) }
qed

lemma wrapSpecificError_RateLimit:
  "wrapSpecificError rt r re = RateLimitError re' n \<Longrightarrow>
     Status re = 429 \<and> re' = re \<and> n = int_of_float64 rt (ParseFloat rt (Header r ''Retry-After''))"
  by (auto simp: wrapSpecificError_def split: if_splits)

lemma CheckResponseError_RateLimit:
  assumes "CheckResponseError rt resp = Some (RateLimitError re n)"
  shows "StatusCode resp = 429 \<and> n = int_of_float64 rt (ParseFloat rt (Header resp ''Retry-After''))"
  using assms
  by (auto simp: CheckResponseError_def Let_def
      split: if_splits option.splits unmarshalled.splits json.splits sum.splits
      dest!: wrapSpecificError_RateLimit flattenMap_result)

lemma CheckResponseError_None_iff:
  "CheckResponseError rt resp = None \<longleftrightarrow> 200 \<le> StatusCode resp \<and> StatusCode resp < 300"
  by (auto simp: CheckResponseError_def Let_def
      split: if_splits option.splits unmarshalled.splits json.splits sum.splits)


lemma retryLoop_Done:
  "attempt rt (srv (attempts c + 1)) budget = Done r \<Longrightarrow>
     retryLoop rt srv budget c = (r, c\<lparr>attempts := attempts c + 1\<rparr>, [Sent])"
  by (simp add: retryLoop.simps [of rt srv budget c])

lemma retryLoop_Again:
  "attempt rt (srv (attempts c + 1)) budget = Again evs \<Longrightarrow>
     retryLoop rt srv budget c =
       (case retryLoop rt srv (budget - 1) (c\<lparr>attempts := attempts c + 1\<rparr>) of
          (r, c2, tr) \<Rightarrow> (r, c2, Sent # evs @ tr))"
  by (simp add: retryLoop.simps [of rt srv budget c])

lemma retryLoop_trace: "\<exists>tr. snd (snd (retryLoop rt srv budget c)) = Sent # tr"
  by (cases "attempt rt (srv (attempts c + 1)) budget")
    (auto simp: retryLoop_Done retryLoop_Again split: prod.splits)

text \<open>
  C9 (amended): the transport executor, \<open>doGetHeaders\<close>, changes the rate-limit state of
  the client only at the end of a call that succeeds, after the last response has been
  received with a 2xx status and its body decoded: the retry-after seconds are then those
  of that response's \<open>Retry-After\<close> header, and the request count and bucket size those of
  its call-limit header when it has the form \<open>N/M\<close> (they are kept otherwise); a call of
  the executor that returns an error, of the transport, of the classifier or of decoding,
  leaves the rate-limit state as it was before the call.
\<close>

theorem doGetHeaders_RateLimits:
  assumes "doGetHeaders rt srv reqBodyErr v c = (r, c', tr)"
  shows "case r of
           Inl err \<Rightarrow> RateLimits c' = RateLimits c
         | Inr hdr \<Rightarrow>
             (\<exists>resp. srv (attempts c') = Responded resp
                \<and> 200 \<le> StatusCode resp \<and> StatusCode resp < 300 \<and> hdr = Header resp)
             \<and> RateLimitRetryAfterSeconds (RateLimits c') = ParseFloat rt (hdr ''Retry-After'')
             \<and> GraphQLCost (RateLimits c') = GraphQLCost (RateLimits c)
             \<and> (let s = Split (hdr ''X-Shopify-Shop-Api-Call-Limit'') CHR ''/''
                in if length s = 2
                   then RequestCount (RateLimits c') = fst (Atoi (s ! 0))
                        \<and> BucketSize (RateLimits c') = fst (Atoi (s ! 1))
                   else RequestCount (RateLimits c') = RequestCount (RateLimits c)
                        \<and> BucketSize (RateLimits c') = BucketSize (RateLimits c))"
proof (cases reqBodyErr)
  case (Some e)
  with assms show ?thesis
    by (auto simp: doGetHeaders_def doRequest_def)
next
  case None
  obtain r1 c1 tr1 where loop: "retryLoop rt srv (retries c) (c\<lparr>attempts := 0\<rparr>) = (r1, c1, tr1)"
    by (cases "retryLoop rt srv (retries c) (c\<lparr>attempts := 0\<rparr>)") auto
  note cl = retryLoop_client [OF loop] and la = retryLoop_last [OF loop]
  show ?thesis
  proof (cases r1)
    case (Inl e)
    with assms None loop cl show ?thesis
      by (auto simp: doGetHeaders_def doRequest_def)
  next
    case (Inr resp)
    with la have ok: "srv (attempts c1) = Responded resp"
      "200 \<le> StatusCode resp \<and> StatusCode resp < 300"
      by (simp_all add: CheckResponseError_None_iff)
    show ?thesis
    proof (cases "if v then BodyResult resp else None")
      case (Some e)
      with assms \<open>reqBodyErr = None\<close> loop cl Inr show ?thesis
        by (auto simp: doGetHeaders_def doRequest_def Let_def)
    next
      case n: None
      with assms \<open>reqBodyErr = None\<close> loop cl Inr ok show ?thesis
        by (auto simp: doGetHeaders_def doRequest_def Let_def)
    qed
  qed
qed




lemma attempt_transport:
  "attempt rt (TransportError msg) budget = Done (Inl (OtherError msg))"
  by (simp add: attempt_def)

lemma attempt_classified:
  assumes "CheckResponseError rt resp = Some e" and "\<forall>p. e \<noteq> Panic p"
  shows "attempt rt (Responded resp) budget =
           (if 1 < budget \<and> (\<exists>re n. e = RateLimitError re n)
            then Again [TimeSleep (seconds
                   (int_of_float64 rt (ParseFloat rt (Header resp ''Retry-After''))))]
            else if 1 < budget \<and> StatusCode resp = 503 then Again []
            else Done (Inl e))"
proof (cases e)
  case (RateLimitError re n)
  with assms(1) have "n = int_of_float64 rt (ParseFloat rt (Header resp ''Retry-After''))"
    using CheckResponseError_RateLimit by blast
  with assms RateLimitError show ?thesis
    by (auto simp: attempt_def)
qed (use assms in \<open>auto simp: attempt_def\<close>)

lemma doGetHeaders_trace:
  "snd (snd (doGetHeaders rt srv None v c))
     = snd (snd (retryLoop rt srv (retries c) (c\<lparr>attempts := 0\<rparr>)))"
  by (auto simp: doGetHeaders_def doRequest_def Let_def split: prod.splits sum.splits option.splits)

lemma doGetHeaders_error:
  "retryLoop rt srv (retries c) (c\<lparr>attempts := 0\<rparr>) = (Inl e, c', tr) \<Longrightarrow>
     doGetHeaders rt srv None v c = (Inl e, c', tr)"
  by (simp add: doGetHeaders_def doRequest_def)

lemma seconds_2: "seconds 2 = 2000000000"
  by (simp add: seconds_def int64_def)

text \<open>
  C1 (amended): in every round of the retry loop, an error of the transport is returned at
  once; a classified error is retried only when it is a rate-limit error (after a sleep of
  the whole seconds of the response's \<open>Retry-After\<close> header) or when the status is 503 (with
  no sleep), and only while the remaining budget is greater than 1; otherwise the classified
  error itself is returned, also when the budget is exhausted: the error a call returns from
  its loop is the error of the transport or the classification of the last response. Every
  round starts with an attempt. In particular, when the first response is classified as a
  rate-limit error (a 429, for instance one with an empty body) and its \<open>Retry-After\<close> is
  2, a budget of at least 2 gives one sleep of 2 seconds followed by a second attempt, and a
  budget of at most 1 returns the rate-limit error after the first attempt, with no sleep.
\<close>

theorem retry_policy:
  "(\<forall>msg. srv (attempts c + 1) = TransportError msg \<longrightarrow>
      retryLoop rt srv budget c = (Inl (OtherError msg), c\<lparr>attempts := attempts c + 1\<rparr>, [Sent]))
   \<and> (\<forall>resp e. srv (attempts c + 1) = Responded resp \<and> CheckResponseError rt resp = Some e
         \<and> (\<forall>p. e \<noteq> Panic p) \<longrightarrow>
        (if 1 < budget \<and> (\<exists>re n. e = RateLimitError re n)
         then retryLoop rt srv budget c =
                (case retryLoop rt srv (budget - 1) (c\<lparr>attempts := attempts c + 1\<rparr>) of
                   (r, c2, tr) \<Rightarrow>
                     (r, c2, Sent # TimeSleep (seconds
                        (int_of_float64 rt (ParseFloat rt (Header resp ''Retry-After'')))) # tr))
         else if 1 < budget \<and> StatusCode resp = 503
         then retryLoop rt srv budget c =
                (case retryLoop rt srv (budget - 1) (c\<lparr>attempts := attempts c + 1\<rparr>) of
                   (r, c2, tr) \<Rightarrow> (r, c2, Sent # tr))
         else retryLoop rt srv budget c = (Inl e, c\<lparr>attempts := attempts c + 1\<rparr>, [Sent])))
   \<and> (\<exists>tr. snd (snd (retryLoop rt srv budget c)) = Sent # tr)
   \<and> (\<forall>resp re n. srv 1 = Responded resp
         \<and> CheckResponseError rt resp = Some (RateLimitError re n)
         \<and> ParseFloat rt (Header resp ''Retry-After'') = Finite 2 \<longrightarrow>
        (2 \<le> retries c \<longrightarrow>
           (\<exists>tr. snd (snd (doGetHeaders rt srv None v c))
                   = Sent # TimeSleep 2000000000 # Sent # tr))
        \<and> (retries c \<le> 1 \<longrightarrow>
             doGetHeaders rt srv None v c
               = (Inl (RateLimitError re 2), c\<lparr>attempts := 1\<rparr>, [Sent])))
   \<and> (\<forall>e c' tr. retryLoop rt srv (retries c) (c\<lparr>attempts := 0\<rparr>) = (Inl e, c', tr) \<longrightarrow>
        doGetHeaders rt srv None v c = (Inl e, c', tr)
        \<and> ((\<exists>msg. srv (attempts c') = TransportError msg \<and> e = OtherError msg)
           \<or> (\<exists>resp. srv (attempts c') = Responded resp
                 \<and> CheckResponseError rt resp = Some e)))"
proof (intro conjI allI impI)
  fix msg
  assume "srv (attempts c + 1) = TransportError msg"
  then show "retryLoop rt srv budget c
               = (Inl (OtherError msg), c\<lparr>attempts := attempts c + 1\<rparr>, [Sent])"
    by (simp add: retryLoop_Done attempt_transport)
next
  fix resp e
  assume h: "srv (attempts c + 1) = Responded resp \<and> CheckResponseError rt resp = Some e
         \<and> (\<forall>p. e \<noteq> Panic p)"
  then have a: "attempt rt (srv (attempts c + 1)) budget =
           (if 1 < budget \<and> (\<exists>re n. e = RateLimitError re n)
            then Again [TimeSleep (seconds
                   (int_of_float64 rt (ParseFloat rt (Header resp ''Retry-After''))))]
            else if 1 < budget \<and> StatusCode resp = 503 then Again []
            else Done (Inl e))"
    using attempt_classified [of rt resp e budget] by simp
  show "if 1 < budget \<and> (\<exists>re n. e = RateLimitError re n)
         then retryLoop rt srv budget c =
                (case retryLoop rt srv (budget - 1) (c\<lparr>attempts := attempts c + 1\<rparr>) of
                   (r, c2, tr) \<Rightarrow>
                     (r, c2, Sent # TimeSleep (seconds
                        (int_of_float64 rt (ParseFloat rt (Header resp ''Retry-After'')))) # tr))
         else if 1 < budget \<and> StatusCode resp = 503
         then retryLoop rt srv budget c =
                (case retryLoop rt srv (budget - 1) (c\<lparr>attempts := attempts c + 1\<rparr>) of
                   (r, c2, tr) \<Rightarrow> (r, c2, Sent # tr))
         else retryLoop rt srv budget c = (Inl e, c\<lparr>attempts := attempts c + 1\<rparr>, [Sent])"
  proof (cases "1 < budget \<and> (\<exists>re n. e = RateLimitError re n)")
    case True
    with a show ?thesis by (simp add: retryLoop_Again)
  next
    case nr: False
    show ?thesis
    proof (cases "1 < budget \<and> StatusCode resp = 503")
      case True
      with a nr show ?thesis by (simp add: retryLoop_Again)
    next
      case False
      with a nr have "attempt rt (srv (attempts c + 1)) budget = Done (Inl e)" by auto
      from retryLoop_Done [where srv = srv and c = c, OF this] nr False show ?thesis by auto
    qed
  qed
next
  show "\<exists>tr. snd (snd (retryLoop rt srv budget c)) = Sent # tr"
    by (rule retryLoop_trace)
next
  fix resp re n
  assume h: "srv 1 = Responded resp \<and> CheckResponseError rt resp = Some (RateLimitError re n)
         \<and> ParseFloat rt (Header resp ''Retry-After'') = Finite 2"
  assume b: "2 \<le> retries c"
  have "attempt rt (srv (attempts (c\<lparr>attempts := 0\<rparr>) + 1)) (retries c)
          = Again [TimeSleep 2000000000]"
    using h b attempt_classified [of rt resp "RateLimitError re n" "retries c"]
    by (simp add: seconds_2)
  from retryLoop_Again [where srv = srv and c = "c\<lparr>attempts := 0\<rparr>", OF this]
    retryLoop_trace [of rt srv "retries c - 1" "c\<lparr>attempts := 0, attempts := 1\<rparr>"]
  show "\<exists>tr. snd (snd (doGetHeaders rt srv None v c)) = Sent # TimeSleep 2000000000 # Sent # tr"
    by (auto simp: doGetHeaders_trace split: prod.splits)
next
  fix resp re n
  assume h: "srv 1 = Responded resp \<and> CheckResponseError rt resp = Some (RateLimitError re n)
         \<and> ParseFloat rt (Header resp ''Retry-After'') = Finite 2"
  assume b: "retries c \<le> 1"
  from h have n: "n = 2"
    using CheckResponseError_RateLimit [of rt resp re n] by simp
  have "attempt rt (srv (attempts (c\<lparr>attempts := 0\<rparr>) + 1)) (retries c)
          = Done (Inl (RateLimitError re n))"
    using h b attempt_classified [of rt resp "RateLimitError re n" "retries c"]
    by simp
  from retryLoop_Done [where srv = srv and c = "c\<lparr>attempts := 0\<rparr>", OF this]
  show "doGetHeaders rt srv None v c
               = (Inl (RateLimitError re 2), c\<lparr>attempts := 1\<rparr>, [Sent])"
    by (simp add: doGetHeaders_error n)
next
  fix e c' tr
  assume "retryLoop rt srv (retries c) (c\<lparr>attempts := 0\<rparr>) = (Inl e, c', tr)"
  then show "doGetHeaders rt srv None v c = (Inl e, c', tr)"
    by (rule doGetHeaders_error)
next
  fix e c' tr
  assume "retryLoop rt srv (retries c) (c\<lparr>attempts := 0\<rparr>) = (Inl e, c', tr)"
  from retryLoop_last [OF this]
  show "(\<exists>msg. srv (attempts c') = TransportError msg \<and> e = OtherError msg)
           \<or> (\<exists>resp. srv (attempts c') = Responded resp
                 \<and> CheckResponseError rt resp = Some e)"
    by simp
qed


lemmas exec_defs = doGetHeaders_def doRequest_def retryLoop.simps attempt_def
  CheckResponseError_def wrapSpecificError_def client0_def srv_429_then_200_def mkResponse_def
  throttled_headers_def no_headers_def ok_headers_def srv_ok_def rt0_def seconds_def int64_def
  Let_def

text \<open>
  C1, as stated, fails for a 429 response whose body is not JSON: it is classified as a
  decoding error, which is returned at once although the budget is 2, with no delay and no
  second attempt. Where there is a delay, it is a call of \<open>time.Sleep\<close>.
\<close>

theorem retry_429_undecodable_counterexample:
  "doGetHeaders rt0 (srv_429_then_200 ''not json'' (Invalid ''invalid character'')) None True
     (client0 2)
   = (Inl (DecodingError \<lparr>Body = ''not json'', DMessage = ''invalid character'', DStatus = 429\<rparr>),
      (client0 2)\<lparr>attempts := 1\<rparr>, [Sent])
   \<and> throttled_headers ''Retry-After'' = ''2''
   \<and> snd (snd (doGetHeaders rt0 (srv_429_then_200 [] (Fields [] None)) None True (client0 2)))
     = [Sent, TimeSleep 2000000000, Sent]"
  by (simp add: exec_defs)

theorem retry_policy_witness:
  "(\<exists>tr. snd (snd (doGetHeaders rt0 (srv_429_then_200 [] (Fields [] None)) None True (client0 2)))
          = Sent # TimeSleep 2000000000 # Sent # tr)
   \<and> doGetHeaders rt0 (srv_429_then_200 [] (Fields [] None)) None True (client0 1)
     = (Inl (RateLimitError \<lparr>Status = 429, Message = [], Errors = []\<rparr> 2),
        (client0 1)\<lparr>attempts := 1\<rparr>, [Sent])"
proof -
  have h: "srv_429_then_200 [] (Fields [] None) 1
             = Responded (mkResponse 429 throttled_headers [] (Fields [] None))
           \<and> CheckResponseError rt0 (mkResponse 429 throttled_headers [] (Fields [] None))
             = Some (RateLimitError \<lparr>Status = 429, Message = [], Errors = []\<rparr> 2)
           \<and> ParseFloat rt0 (Header (mkResponse 429 throttled_headers [] (Fields [] None))
                ''Retry-After'') = Finite 2"
    by (simp add: exec_defs)
  have r: "2 \<le> retries (client0 2)" "retries (client0 1) \<le> 1"
    by (simp_all add: client0_def)
  from retry_policy [of "srv_429_then_200 [] (Fields [] None)" "client0 2" rt0 2 True] h r(1)
  have 1: "\<exists>tr. snd (snd (doGetHeaders rt0 (srv_429_then_200 [] (Fields [] None)) None True
             (client0 2))) = Sent # TimeSleep 2000000000 # Sent # tr"
    by blast
  from retry_policy [of "srv_429_then_200 [] (Fields [] None)" "client0 1" rt0 1 True] h r(2)
  have 2: "doGetHeaders rt0 (srv_429_then_200 [] (Fields [] None)) None True (client0 1)
     = (Inl (RateLimitError \<lparr>Status = 429, Message = [], Errors = []\<rparr> 2),
        (client0 1)\<lparr>attempts := 1\<rparr>, [Sent])"
    by blast
  from 1 2 show ?thesis by blast
qed

text \<open>
  C9, as stated, fails for a call of the executor that returns a classified error: the
  response had \<open>Retry-After: 2\<close> and the call limit \<open>40/40\<close>, and the rate-limit state
  is still the initial one.
\<close>

theorem doGetHeaders_RateLimits_error_counterexample:
  "doGetHeaders rt0 (srv_429_then_200 [] (Fields [] None)) None True (client0 1)
   = (Inl (RateLimitError \<lparr>Status = 429, Message = [], Errors = []\<rparr> 2),
      \<lparr>retries = 1, attempts = 1, apiVersion = ''2023-01'',
       RateLimits = \<lparr>RequestCount = 0, BucketSize = 0, GraphQLCost = None,
                     RateLimitRetryAfterSeconds = Finite 0\<rparr>\<rparr>, [Sent])
   \<and> throttled_headers ''Retry-After'' = ''2''
   \<and> throttled_headers ''X-Shopify-Shop-Api-Call-Limit'' = ''40/40''
   \<and> RateLimits (client0 1)
     = \<lparr>RequestCount = 0, BucketSize = 0, GraphQLCost = None,
        RateLimitRetryAfterSeconds = Finite 0\<rparr>"
  by (simp add: exec_defs)

theorem doGetHeaders_RateLimits_witness:
  "RateLimits (fst (snd (doGetHeaders rt0 srv_ok None True (client0 0))))
     = \<lparr>RequestCount = 12, BucketSize = 40, GraphQLCost = None,
        RateLimitRetryAfterSeconds = Finite 0\<rparr>
   \<and> RateLimits (fst (snd (doGetHeaders rt0 (srv_429_then_200 [] (Fields [] None)) None True
        (client0 1)))) = RateLimits (client0 1)"
proof -
  define X where "X = doGetHeaders rt0 srv_ok None True (client0 0)"
  define Y where "Y = doGetHeaders rt0 (srv_429_then_200 [] (Fields [] None)) None True (client0 1)"
  have a: "Atoi ''12'' = (12, None)" "Atoi ''40'' = (40, None)"
    "Split ''12/40'' CHR ''/'' = [''12'', ''40'']"
    by code_simp+
  have "fst X = Inr ok_headers"
    by (simp add: X_def exec_defs)
  then have x: "doGetHeaders rt0 srv_ok None True (client0 0)
                  = (Inr ok_headers, fst (snd X), snd (snd X))"
    by (simp add: X_def prod_eq_iff)
  have "RateLimitRetryAfterSeconds (RateLimits (fst (snd X))) = Finite 0
        \<and> GraphQLCost (RateLimits (fst (snd X))) = None
        \<and> RequestCount (RateLimits (fst (snd X))) = 12
        \<and> BucketSize (RateLimits (fst (snd X))) = 40"
    using doGetHeaders_RateLimits [OF x]
    by (simp add: ok_headers_def a rt0_def client0_def)
  then have 1: "RateLimits (fst (snd X))
     = \<lparr>RequestCount = 12, BucketSize = 40, GraphQLCost = None,
        RateLimitRetryAfterSeconds = Finite 0\<rparr>"
    by (cases "RateLimits (fst (snd X))") simp
  have "fst Y = Inl (RateLimitError \<lparr>Status = 429, Message = [], Errors = []\<rparr> 2)"
    by (simp add: Y_def exec_defs)
  then have y: "doGetHeaders rt0 (srv_429_then_200 [] (Fields [] None)) None True (client0 1)
                  = (Inl (RateLimitError \<lparr>Status = 429, Message = [], Errors = []\<rparr> 2),
                     fst (snd Y), snd (snd Y))"
    by (simp add: Y_def prod_eq_iff)
  have 2: "RateLimits (fst (snd Y)) = RateLimits (client0 1)"
    using doGetHeaders_RateLimits [OF y] by simp
  from 1 2 show ?thesis
    by (simp add: X_def Y_def)
qed

section \<open>Throttled GraphQL queries\<close>

lemma scanErrors_reached:
  "list_ex throttled es \<Longrightarrow>
     scanErrors True es errs d = Inl (gqlMessage (hd (filter throttled es)))"
  by (induction es arbitrary: errs d) auto

lemma scanErrors_retry:
  "list_ex throttled es \<Longrightarrow>
     scanErrors False es errs d = Inr (errs @ map gqlMessage es, True)"
  "d \<Longrightarrow> scanErrors False es errs d = Inr (errs @ map gqlMessage es, True)"
  by (induction es arbitrary: errs d) auto

lemma scanErrors_none:
  "\<not> list_ex throttled es \<Longrightarrow>
     scanErrors reached es errs d = Inr (errs @ map gqlMessage es, d)"
  by (induction es arbitrary: errs d) auto

lemma Query_loop_Done:
  "queryRound rt (srv k) newRequestErr attemptsSoFar c = QDone err c' tr \<Longrightarrow>
     Query_loop rt srv newRequestErr k attemptsSoFar c = (err, c', tr)"
  by (simp add: Query_loop.simps)

lemma Query_loop_Retry:
  "queryRound rt (srv k) newRequestErr attemptsSoFar c = QRetry attemptsNow c' tr \<Longrightarrow>
     Query_loop rt srv newRequestErr k attemptsSoFar c =
       (case Query_loop rt srv newRequestErr (Suc k) attemptsNow c' of
          (err, c'', tr') \<Rightarrow> (err, c'', tr @ tr'))"
  by (simp add: Query_loop.simps)


lemma Post_retries:
  assumes "Post rt srv newRequestErr c = (err, gr, c1, tr)"
  shows "retries c1 = retries c"
proof (cases newRequestErr)
  case (Some e)
  with assms show ?thesis by (simp add: Post_def)
next
  case None
  obtain r cl tl where l: "retryLoop rt srv (retries c) (c\<lparr>attempts := 0\<rparr>) = (r, cl, tl)"
    by (cases "retryLoop rt srv (retries c) (c\<lparr>attempts := 0\<rparr>)") auto
  from retryLoop_client [OF l] have "retries cl = retries c" by simp
  with assms None l show ?thesis
    by (auto simp: Post_def doRequest_def Let_def split: sum.splits option.splits if_splits)
qed

lemma queryRound_errors:
  assumes "Post rt srv newRequestErr c = (err, gr, c1, tr)" and "grErrors gr \<noteq> []"
  shows "queryRound rt srv newRequestErr attemptsSoFar c =
           (if list_ex throttled (grErrors gr)
            then if retries c \<le> attemptsSoFar + attempts c1
                 then QDone (Some (RateLimitError
                        \<lparr>Status = 200, Message = gqlMessage (hd (filter throttled (grErrors gr))),
                         Errors = []\<rparr>
                        (int_of_float64 rt (suggestedWait gr))))
                        (afterRound gr (attemptsSoFar + attempts c1) c1) tr
                 else QRetry (attemptsSoFar + attempts c1) (afterRound gr (attemptsSoFar + attempts c1) c1)
                        (tr @ [ClientSleep (seconds (int_of_float64 rt (suggestedWait gr)))])
            else QDone (Some (RespError
                   \<lparr>Status = 200, Message = [], Errors = map gqlMessage (grErrors gr)\<rparr>))
                   (afterRound gr (attemptsSoFar + attempts c1) c1) tr)"
proof -
  have r: "retries c1 = retries c"
    using assms(1) by (rule Post_retries)
  show ?thesis
  proof (cases "list_ex throttled (grErrors gr)")
    case t: True
    show ?thesis
    proof (cases "retries c \<le> attemptsSoFar + attempts c1")
      case True
      with t assms r show ?thesis
        by (cases "grExtensions gr")
          (simp_all add: queryRound_def Let_def afterRound_def suggestedWait_def
            scanErrors_reached)
    next
      case False
      with t assms r show ?thesis
        by (cases "grExtensions gr")
          (simp_all add: queryRound_def Let_def afterRound_def suggestedWait_def
            scanErrors_retry)
    qed
  next
    case False
    with assms r show ?thesis
      by (cases "grExtensions gr")
        (simp_all add: queryRound_def Let_def afterRound_def suggestedWait_def scanErrors_none)
  qed
qed

text \<open>
  C2 (amended): when the response of a round of \<open>Query\<close> holds at least one query error:
  if an error carries the code \<open>THROTTLED\<close> and the accumulated attempt count has reached
  the client's retry limit, \<open>Query\<close> returns a rate-limit error with status 200, the
  message of the first throttled error and the suggested wait truncated to whole seconds; if
  an error carries the code and the limit is not reached, \<open>Query\<close> calls the client's delay
  function with the suggested wait truncated to whole seconds and runs the whole query
  again; if no error carries the code, \<open>Query\<close> returns an API error with status 200 that
  lists the messages of all the errors, without retrying.
\<close>

theorem Query_errors:
  assumes "Post rt (srv k) newRequestErr c = (err, gr, c1, tr)" and "grErrors gr \<noteq> []"
  shows "if list_ex throttled (grErrors gr)
         then if retries c \<le> attemptsSoFar + attempts c1
              then Query_loop rt srv newRequestErr k attemptsSoFar c =
                     (Some (RateLimitError
                        \<lparr>Status = 200, Message = gqlMessage (hd (filter throttled (grErrors gr))),
                         Errors = []\<rparr>
                        (int_of_float64 rt (suggestedWait gr))),
                      afterRound gr (attemptsSoFar + attempts c1) c1, tr)
              else Query_loop rt srv newRequestErr k attemptsSoFar c =
                     (case Query_loop rt srv newRequestErr (Suc k) (attemptsSoFar + attempts c1)
                             (afterRound gr (attemptsSoFar + attempts c1) c1) of
                        (err', c', tr') \<Rightarrow>
                          (err', c',
                           tr @ ClientSleep (seconds (int_of_float64 rt (suggestedWait gr))) # tr'))
         else Query_loop rt srv newRequestErr k attemptsSoFar c =
                (Some (RespError
                   \<lparr>Status = 200, Message = [], Errors = map gqlMessage (grErrors gr)\<rparr>),
                 afterRound gr (attemptsSoFar + attempts c1) c1, tr)"
proof -
  note q = queryRound_errors [OF assms, of attemptsSoFar]
  show ?thesis
  proof (cases "list_ex throttled (grErrors gr)")
    case t: True
    show ?thesis
    proof (cases "retries c \<le> attemptsSoFar + attempts c1")
      case True
      with t q show ?thesis by (simp add: Query_loop_Done)
    next
      case False
      with t q show ?thesis by (simp add: Query_loop_Retry)
    qed
  next
    case False
    with q show ?thesis by (simp add: Query_loop_Done)
  qed
qed


lemmas query_defs = Query_def Query_loop.simps queryRound_def Post_def lastResponse_def
  gqlResponse_def throttledResponse_def srv_throttled_once_def throttled_def
  RetryAfterSeconds_def fdiv_def suggestedWait_def afterRound_def

text \<open>
  C2, as stated, fails for a suggested wait that is not a whole number of seconds: with
  100 points available, 50 restored per second and a cost of 125 the suggested wait is half a
  second, the delay function is called with 0, and the rate-limit error carries 0.
\<close>

theorem Query_fractional_wait_counterexample:
  "suggestedWait (throttledResponse 125) = Finite (1 / 2)
   \<and> snd (snd (Query rt0 (srv_throttled_once 125) None (client0 3)))
       = [Sent, ClientSleep 0, Sent]
   \<and> fst (Query rt0 (srv_throttled_once 125) None (client0 1))
       = Some (RateLimitError \<lparr>Status = 200, Message = ''Throttled'', Errors = []\<rparr> 0)"
  by (simp add: query_defs exec_defs)

theorem Query_errors_witness:
  "\<exists>c'. Query_loop rt0 (srv_throttled_once 200) None 0 0 (client0 3)
      = (case Query_loop rt0 (srv_throttled_once 200) None (Suc 0) 1 c' of
           (err', c'', tr') \<Rightarrow> (err', c'', Sent # ClientSleep 2000000000 # tr'))"
proof -
  define P where "P = Post rt0 (srv_throttled_once 200 0) None (client0 3)"
  have "fst P = None \<and> fst (snd P) = throttledResponse 200 \<and> snd (snd (snd P)) = [Sent]
        \<and> attempts (fst (snd (snd P))) = 1"
    by (simp add: P_def query_defs exec_defs)
  then have p: "Post rt0 (srv_throttled_once 200 0) None (client0 3)
        = (None, throttledResponse 200, fst (snd (snd P)), [Sent])"
    and a: "attempts (fst (snd (snd P))) = 1"
    by (simp_all add: P_def prod_eq_iff)
  have g: "grErrors (throttledResponse 200) \<noteq> []"
    "list_ex throttled (grErrors (throttledResponse 200))"
    "\<not> retries (client0 3) \<le> 0 + 1"
    "seconds (int_of_float64 rt0 (suggestedWait (throttledResponse 200))) = 2000000000"
    by (simp_all add: query_defs exec_defs)
  from Query_errors [where srv = "srv_throttled_once 200" and k = 0 and attemptsSoFar = 0, OF p g(1)]
    g(2-4) a
  show ?thesis
    by auto
qed

end
